theory Spec2Isabelle
  imports Complex_Main
begin

section \<open>Strings\<close>

text \<open>
  A JavaScript string is modelled as a \<^typ>\<open>string\<close>; one \<^typ>\<open>char\<close> stands for one
  code unit below 256, so the letters are the ASCII letters and the letters of the
  Latin-1 block (code units 192 to 222 in upper case and 224 to 254 in lower case, the
  signs at 215 and 247 apart). The built-in string methods the route handlers call are
  written out below.
\<close>

text \<open>\<^verbatim>\<open>String.prototype.toLowerCase\<close>, one code unit at a time.\<close>

definition lower_char :: "char \<Rightarrow> char" where
  "lower_char c =
     (let n = of_char c :: nat
      in if (65 \<le> n \<and> n \<le> 90) \<or> (192 \<le> n \<and> n \<le> 222 \<and> n \<noteq> 215)
         then char_of (n + 32) else c)"

definition toLowerCase :: "string \<Rightarrow> string" where
  "toLowerCase s = map lower_char s"

text \<open>
  The canonicalisation a regular expression with the \<^verbatim>\<open>i\<close> flag applies to a pattern
  character and to an input character before comparing them: the upper-case form when
  that is one code unit. The sharp s (223) has an upper-case form of two code units and
  stays; the upper-case forms of the micro sign (181) and of the y with diaeresis (255)
  lie beyond the code units modelled and are the form of no other code unit below 256,
  so these two stay as well.
\<close>

definition canonicalize :: "char \<Rightarrow> char" where
  "canonicalize c =
     (let n = of_char c :: nat
      in if (97 \<le> n \<and> n \<le> 122) \<or> (224 \<le> n \<and> n \<le> 254 \<and> n \<noteq> 247)
         then char_of (n - 32) else c)"

text \<open>
  Equality of two names up to letter case, stated apart from the matcher: the
  comparison \<^verbatim>\<open>a.toLowerCase() === b.toLowerCase()\<close>.
\<close>

definition same_name_ci :: "string \<Rightarrow> string \<Rightarrow> bool" where
  "same_name_ci a b \<longleftrightarrow> toLowerCase a = toLowerCase b"

text \<open>
  \<^verbatim>\<open>String.prototype.trim\<close>: white space and line terminators are removed at both ends
  (tab, line feed, vertical tab, form feed, carriage return, space, no-break space).
\<close>

definition is_space :: "char \<Rightarrow> bool" where
  "is_space c \<longleftrightarrow> c \<in> set [CHR 0x09, CHR 0x0A, CHR 0x0B, CHR 0x0C, CHR 0x0D, CHR 0x20, CHR 0xA0]"

definition trim :: "string \<Rightarrow> string" where
  "trim s = rev (dropWhile is_space (rev (dropWhile is_space s)))"

text \<open>
  \<^verbatim>\<open>s.split(',')\<close>: the pieces between the separators, empty pieces included; the
  empty string splits into one empty piece.
\<close>

fun split :: "char \<Rightarrow> string \<Rightarrow> string list" where
  "split d [] = [[]]"
| "split d (c # cs) =
     (if c = d then [] # split d cs
      else (case split d cs of [] \<Rightarrow> [[c]] | w # ws \<Rightarrow> (c # w) # ws))"

section \<open>The Medicine model (models/medicine.js)\<close>

text \<open>
  One document of the collection. The stock is an integer and the price a rational
  number; the optional text fields are \<open>None\<close> when the document has no such field;
  \<open>createdAt\<close> is the clock reading taken when the document was built. The collection
  is the list of its documents in insertion order, which is the order \<^verbatim>\<open>findOne\<close> and
  \<^verbatim>\<open>find\<close> scan.
\<close>

record medicine =
  tabletName :: string
  quantityInStock :: int
  price :: rat
  dosageFrequency :: "string option"
  usageInstructions :: "string option"
  foodWarnings :: "string option"
  createdAt :: nat

section \<open>Regular expressions\<close>

text \<open>
  The handler builds \<^verbatim>\<open>new RegExp(`^${name}$`, 'i')\<close> from the raw name. The pattern is
  parsed as the constructor parses it, so a name is read as pattern syntax. The syntax
  modelled: literal characters, \<^verbatim>\<open>.\<close>, the assertions \<^verbatim>\<open>^\<close> and \<^verbatim>\<open>$\<close>, groups, \<^verbatim>\<open>|\<close>,
  the greedy quantifiers \<^verbatim>\<open>*\<close>, \<^verbatim>\<open>+\<close>, \<^verbatim>\<open>?\<close>, and a backslash before a syntax character.
  What lies beyond (character classes, braces, other escapes, \<^verbatim>\<open>(?\<close> groups, lazy
  quantifiers) is left to a parameter of the environment. A pattern is read as
  ECMAScript reads it; the collection, which evaluates the filter, stores trimmed names
  (\<^verbatim>\<open>trim: true\<close> in the schema).
\<close>

definition backslash :: char where
  "backslash = CHR 0x5C"

text \<open>The syntax characters of the pattern grammar.\<close>

definition syntax_chars :: "char list" where
  "syntax_chars = [CHR ''^'', CHR ''$'', backslash, CHR ''.'', CHR ''*'', CHR ''+'', CHR ''?'',
     CHR ''('', CHR '')'', CHR ''['', CHR '']'', CHR ''{'', CHR ''}'', CHR ''|'']"

definition metachar_free :: "string \<Rightarrow> bool" where
  "metachar_free s \<longleftrightarrow> list_all (\<lambda>c. c \<notin> set syntax_chars) s"

datatype rx =
    Lit char
  | AnyChar
  | Bol
  | Eol
  | Eps
  | Seq rx rx
  | Alt rx rx
  | Star rx
  | Plus rx
  | Opt rx

text \<open>
  A parsed term remembers whether a quantifier may follow it: an atom may be quantified
  once, an assertion or an already quantified atom may not.
\<close>

datatype item = Atom rx | Assertion rx | Quantified rx

fun rx_of :: "item \<Rightarrow> rx" where
  "rx_of (Atom r) = r"
| "rx_of (Assertion r) = r"
| "rx_of (Quantified r) = r"

text \<open>
  A frame is one open group (or the top level): the finished alternatives and the terms
  of the current alternative, both latest first.
\<close>

type_synonym frame = "rx list \<times> item list"

definition seq_of :: "item list \<Rightarrow> rx" where
  "seq_of cur = foldl (\<lambda>acc it. Seq (rx_of it) acc) Eps cur"

fun alt_of :: "rx list \<Rightarrow> rx" where
  "alt_of [] = Eps"
| "alt_of [r] = r"
| "alt_of (r # rs) = Alt r (alt_of rs)"

definition close_frame :: "frame \<Rightarrow> rx" where
  "close_frame fr = alt_of (rev (seq_of (snd fr) # fst fr))"

definition quantify :: "char \<Rightarrow> rx \<Rightarrow> rx" where
  "quantify q r = (if q = CHR ''*'' then Star r else if q = CHR ''+'' then Plus r else Opt r)"

datatype compiled = Throws | Beyond | Compiled rx

definition push :: "item \<Rightarrow> frame list \<Rightarrow> frame list" where
  "push it stk = (case stk of [] \<Rightarrow> [] | (alts, cur) # rest \<Rightarrow> (alts, it # cur) # rest)"

text \<open>
  One pass over the pattern with a stack of open groups. \<open>Throws\<close> is the SyntaxError
  of the constructor (unbalanced parentheses, a quantifier with nothing to repeat, a
  pattern ending in a backslash); \<open>Beyond\<close> is a construct outside the syntax modelled.
\<close>

fun parse :: "frame list \<Rightarrow> string \<Rightarrow> compiled" where
  "parse stk [] = (case stk of [fr] \<Rightarrow> Compiled (close_frame fr) | _ \<Rightarrow> Throws)"
| "parse stk (c # cs) =
     (if c = CHR ''('' then
        (case cs of
           d # ds \<Rightarrow> if d = CHR ''?'' then Beyond else parse (([], []) # stk) cs
         | [] \<Rightarrow> parse (([], []) # stk) cs)
      else if c = CHR '')'' then
        (case stk of
           fr # (alts, cur) # rest \<Rightarrow> parse ((alts, Atom (close_frame fr) # cur) # rest) cs
         | _ \<Rightarrow> Throws)
      else if c = CHR ''|'' then
        (case stk of
           (alts, cur) # rest \<Rightarrow> parse ((seq_of cur # alts, []) # rest) cs
         | [] \<Rightarrow> Throws)
      else if c = CHR ''*'' \<or> c = CHR ''+'' \<or> c = CHR ''?'' then
        (case stk of
           (alts, Atom r # cur) # rest \<Rightarrow> parse ((alts, Quantified (quantify c r) # cur) # rest) cs
         | (alts, Quantified r # cur) # rest \<Rightarrow> if c = CHR ''?'' then Beyond else Throws
         | _ \<Rightarrow> Throws)
      else if c = backslash then
        (case cs of
           [] \<Rightarrow> Throws
         | d # ds \<Rightarrow> if d \<in> set syntax_chars then parse (push (Atom (Lit d)) stk) ds else Beyond)
      else if c = CHR ''.'' then parse (push (Atom AnyChar) stk) cs
      else if c = CHR ''^'' then parse (push (Assertion Bol) stk) cs
      else if c = CHR ''$'' then parse (push (Assertion Eol) stk) cs
      else if c = CHR ''['' \<or> c = CHR '']'' \<or> c = CHR ''{'' \<or> c = CHR ''}'' then Beyond
      else parse (push (Atom (Lit c)) stk) cs)"

text \<open>
  The positions a repetition can stop at: the positions reached so far, extended round
  by round with what one more iteration reaches. No position lies beyond the end of the
  text, so one round more than the text is long finds them all.
\<close>

fun star_closure :: "(nat \<Rightarrow> nat list) \<Rightarrow> nat \<Rightarrow> nat list \<Rightarrow> nat list" where
  "star_closure step 0 seen = seen"
| "star_closure step (Suc fuel) seen =
     (let new = filter (\<lambda>j. j \<notin> set seen) (remdups (concat (map step seen)))
      in if new = [] then seen else star_closure step fuel (seen @ new))"

definition line_terminator :: "char \<Rightarrow> bool" where
  "line_terminator c \<longleftrightarrow> c = CHR 0x0A \<or> c = CHR 0x0D"

text \<open>
  \<open>ends r s i\<close>: the positions of the text \<open>s\<close> at which a match of \<open>r\<close> that starts at
  position \<open>i\<close> can end. Characters are compared in canonical form (the \<^verbatim>\<open>i\<close> flag);
  without the \<^verbatim>\<open>m\<close> flag \<^verbatim>\<open>^\<close> holds at the start of the text only and \<^verbatim>\<open>$\<close> at its end.
\<close>

fun ends :: "rx \<Rightarrow> string \<Rightarrow> nat \<Rightarrow> nat list" where
  "ends (Lit c) s i = (if i < length s \<and> canonicalize (s ! i) = canonicalize c then [Suc i] else [])"
| "ends AnyChar s i = (if i < length s \<and> \<not> line_terminator (s ! i) then [Suc i] else [])"
| "ends Bol s i = (if i = 0 then [i] else [])"
| "ends Eol s i = (if i = length s then [i] else [])"
| "ends Eps s i = [i]"
| "ends (Seq a b) s i = concat (map (\<lambda>j. ends b s j) (ends a s i))"
| "ends (Alt a b) s i = ends a s i @ ends b s i"
| "ends (Star a) s i = star_closure (\<lambda>j. ends a s j) (Suc (length s)) [i]"
| "ends (Plus a) s i =
     concat (map (\<lambda>j. star_closure (\<lambda>k. ends a s k) (Suc (length s)) [j]) (ends a s i))"
| "ends (Opt a) s i = i # ends a s i"

text \<open>\<^verbatim>\<open>regex.test(s)\<close>: a match may start at any position of the text.\<close>

definition rx_test :: "rx \<Rightarrow> string \<Rightarrow> bool" where
  "rx_test r s = list_ex (\<lambda>i. ends r s i \<noteq> []) [0..<Suc (length s)]"

section \<open>The environment of the handlers\<close>

text \<open>
  What the handlers reach outside the repository is a parameter:
  \<^item> \<open>other_regex\<close>: what the \<^verbatim>\<open>RegExp\<close> constructor makes of a pattern with a construct
    beyond the syntax modelled above (\<open>None\<close> when it throws, else the test it yields);
  \<^item> \<open>bitap\<close>: the scorer of Fuse.js, given the threshold, the search pattern and one
    text: \<open>None\<close> when the text is no match within the threshold, else its score;
  \<^item> \<open>gemini\<close>: the reply of the Gemini service to one request, given the model
    identifier and the medicine name the prompt is built from.
\<close>

datatype gemini_reply = Text string | ApiError string

record env =
  other_regex :: "string \<Rightarrow> (string \<Rightarrow> bool) option"
  bitap :: "rat \<Rightarrow> string \<Rightarrow> string \<Rightarrow> rat option"
  gemini :: "string \<Rightarrow> string \<Rightarrow> gemini_reply"

text \<open>\<^verbatim>\<open>new RegExp(pattern, 'i')\<close>: \<open>None\<close> is the SyntaxError thrown by the constructor.\<close>

definition new_RegExp_i :: "env \<Rightarrow> string \<Rightarrow> (string \<Rightarrow> bool) option" where
  "new_RegExp_i e pat =
     (case parse [([], [])] pat of
        Throws \<Rightarrow> None
      | Beyond \<Rightarrow> other_regex e pat
      | Compiled r \<Rightarrow> Some (rx_test r))"

text \<open>The template literal \<^verbatim>\<open>`^${name}$`\<close>.\<close>

definition anchored :: "string \<Rightarrow> string" where
  "anchored nm = CHR ''^'' # nm @ [CHR ''$'']"

section \<open>The store and the calls made on it\<close>

text \<open>
  The state a request runs in: the collection, and the log of the calls made to the
  collaborators (the collection, Fuse.js, the Gemini service), in the order made. The
  collection is taken to be reachable: a call to it returns.
\<close>

datatype call =
    FindOneInStock string
  | FindOneByName string
  | FindAll
  | Save
  | FuseSearch string
  | GenerateContent string string

record world =
  store :: "medicine list"
  calls :: "call list"

datatype error = SyntaxError | ValidationError | DuplicateKey

text \<open>
  The filter \<^verbatim>\<open>{ tabletName: <regex>, quantityInStock: { $gt: 0 } }\<close> of the exact stage
  and of the substitute stage.
\<close>

definition in_stock_match :: "(string \<Rightarrow> bool) \<Rightarrow> medicine \<Rightarrow> bool" where
  "in_stock_match test m \<longleftrightarrow> test (tabletName m) \<and> 0 < quantityInStock m"

text \<open>
  \<^verbatim>\<open>Medicine.findOne({ tabletName: new RegExp(`^${nm}$`, 'i'), quantityInStock: { $gt: 0 } })\<close>:
  the filter is built first, so a pattern the constructor rejects throws before the
  collection is asked; otherwise the first document that satisfies the filter is returned.
\<close>

definition findOne_in_stock :: "env \<Rightarrow> string \<Rightarrow> world \<Rightarrow> (error + medicine option) \<times> world" where
  "findOne_in_stock e nm w =
     (case new_RegExp_i e (anchored nm) of
        None \<Rightarrow> (Inl SyntaxError, w)
      | Some test \<Rightarrow>
          (Inr (find (in_stock_match test) (store w)), w\<lparr>calls := calls w @ [FindOneInStock nm]\<rparr>))"

text \<open>\<^verbatim>\<open>Medicine.find({})\<close>: every document, whatever its stock.\<close>

definition find_all :: "world \<Rightarrow> medicine list \<times> world" where
  "find_all w = (store w, w\<lparr>calls := calls w @ [FindAll]\<rparr>)"

text \<open>
  Modelled from the spec: Fuse.js is a library outside the repository; the handler calls
  \<^verbatim>\<open>new Fuse(all, { keys: ['tabletName'], threshold: 0.3 }).search(name)\<close>. The search is a
  single pass over the snapshot that scores each document's \<open>tabletName\<close>, drops the
  documents that are no match within the threshold, and orders the rest by ascending
  score, documents of equal score in catalog order. Each result carries its document.
\<close>

definition fuse_search :: "env \<Rightarrow> medicine list \<Rightarrow> string \<Rightarrow> medicine list" where
  "fuse_search e docs pat =
     map fst (sort_key snd
       (List.map_filter (\<lambda>m. map_option (\<lambda>sc. (m, sc)) (bitap e (3 / 10) pat (tabletName m))) docs))"

definition search :: "env \<Rightarrow> medicine list \<Rightarrow> string \<Rightarrow> world \<Rightarrow> medicine list \<times> world" where
  "search e docs pat w = (fuse_search e docs pat, w\<lparr>calls := calls w @ [FuseSearch pat]\<rparr>)"

text \<open>
  \<^verbatim>\<open>geminiModel.generateContent(prompt)\<close> followed by \<^verbatim>\<open>result.response.text()\<close>: the text
  of the reply, or the error either call throws.
\<close>

definition generateContent :: "env \<Rightarrow> string \<Rightarrow> string \<Rightarrow> world \<Rightarrow> gemini_reply \<times> world" where
  "generateContent e mdl nm w = (gemini e mdl nm, w\<lparr>calls := calls w @ [GenerateContent mdl nm]\<rparr>)"

section \<open>GET /check (routes/medicineRoutes.js)\<close>

definition allowedGeminiModels :: "string list" where
  "allowedGeminiModels =
     [''gemini-2.5-flash-lite-preview-06-17'', ''gemini-2.0-flash-exp'', ''gemini-2.0-pro-exp'']"

definition default_model :: string where
  "default_model = ''gemini-2.5-flash-lite-preview-06-17''"

text \<open>The query string: \<open>None\<close> is a parameter that is absent.\<close>

record query =
  q_name :: "string option"
  q_model :: "string option"

text \<open>
  The responses of the handler, named after the \<^verbatim>\<open>status\<close> label of the body where it
  has one: the four outcomes answer with code 200; \<open>Name_required\<close> and
  \<open>Invalid_model\<close> with 400; \<open>Gemini_error\<close>, carrying the message of the error, with
  502; \<open>Internal_server_error\<close>, the outer \<^verbatim>\<open>catch\<close>, with 500.
\<close>

datatype response =
    Name_required
  | Available_locally medicine
  | Not_found_but_similar_exist "string list"
  | Invalid_model
  | Gemini_error string
  | Alternative_available_locally medicine string
  | Not_available_anywhere "string list" string
  | Internal_server_error

fun status_code :: "response \<Rightarrow> nat" where
  "status_code Name_required = 400"
| "status_code (Available_locally m) = 200"
| "status_code (Not_found_but_similar_exist ns) = 200"
| "status_code Invalid_model = 400"
| "status_code (Gemini_error msg) = 502"
| "status_code (Alternative_available_locally m d) = 200"
| "status_code (Not_available_anywhere ns d) = 200"
| "status_code Internal_server_error = 500"

definition alternative_disclaimer :: string where
  "alternative_disclaimer = ''Suggestions are informational only; consult a healthcare professional.''"

definition unavailable_disclaimer :: string where
  "unavailable_disclaimer = ''This information is for educational use; verify with a licensed pharmacist.''"

text \<open>\<^verbatim>\<open>model || "gemini-2.5-flash-lite-preview-06-17"\<close>: an absent or empty model is the default.\<close>

definition modelToUse :: "query \<Rightarrow> string" where
  "modelToUse q = (case q_model q of None \<Rightarrow> default_model | Some m \<Rightarrow> if m = [] then default_model else m)"

text \<open>
  The candidates read from the reply: none when the reply is empty or is \<^verbatim>\<open>none\<close> in any
  letter case, else its pieces between commas, trimmed, the empty ones dropped.
\<close>

definition geminiAlternatives :: "string \<Rightarrow> string list" where
  "geminiAlternatives rawResponse =
     (if rawResponse \<noteq> [] \<and> toLowerCase rawResponse \<noteq> ''none''
      then filter (\<lambda>x. x \<noteq> []) (map trim (split (CHR '','') rawResponse))
      else [])"

text \<open>
  The loop \<^verbatim>\<open>for (const alt of top3)\<close>: the candidates are looked up in order and the loop
  leaves at the first one found in stock; a lookup that throws leaves the loop as well.
\<close>

fun check_alternatives :: "env \<Rightarrow> string list \<Rightarrow> world \<Rightarrow> (error + medicine option) \<times> world" where
  "check_alternatives e [] w = (Inr None, w)"
| "check_alternatives e (alt # alts) w =
     (case findOne_in_stock e alt w of
        (Inl err, w') \<Rightarrow> (Inl err, w')
      | (Inr (Some inStock), w') \<Rightarrow> (Inr (Some inStock), w')
      | (Inr None, w') \<Rightarrow> check_alternatives e alts w')"

text \<open>The third stage, from the model check on.\<close>

definition substitute_stage :: "env \<Rightarrow> query \<Rightarrow> string \<Rightarrow> world \<Rightarrow> response \<times> world" where
  "substitute_stage e q nm w =
     (if modelToUse q \<notin> set allowedGeminiModels then (Invalid_model, w)
      else
        (case generateContent e (modelToUse q) nm w of
           (ApiError msg, w1) \<Rightarrow> (Gemini_error msg, w1)
         | (Text rawResponse, w1) \<Rightarrow>
             (let top3 = take 3 (geminiAlternatives rawResponse) in
              (case check_alternatives e top3 w1 of
                 (Inl err, w2) \<Rightarrow> (Internal_server_error, w2)
               | (Inr (Some inStock), w2) \<Rightarrow>
                   (Alternative_available_locally inStock alternative_disclaimer, w2)
               | (Inr None, w2) \<Rightarrow> (Not_available_anywhere top3 unavailable_disclaimer, w2)))))"

text \<open>The second stage, and the third when it finds nothing.\<close>

definition fuzzy_stage :: "env \<Rightarrow> query \<Rightarrow> string \<Rightarrow> world \<Rightarrow> response \<times> world" where
  "fuzzy_stage e q nm w =
     (case find_all w of
        (all, w1) \<Rightarrow>
          (case search e all nm w1 of
             (fuzzyResults, w2) \<Rightarrow>
               (let topFuzzy = map tabletName (take 3 fuzzyResults) in
                if topFuzzy \<noteq> [] then (Not_found_but_similar_exist topFuzzy, w2)
                else substitute_stage e q nm w2)))"

text \<open>The handler of \<^verbatim>\<open>router.get('/check')\<close>.\<close>

definition check :: "env \<Rightarrow> query \<Rightarrow> world \<Rightarrow> response \<times> world" where
  "check e q w =
     (case q_name q of
        None \<Rightarrow> (Name_required, w)
      | Some nm \<Rightarrow>
          if nm = [] then (Name_required, w)
          else
            (case findOne_in_stock e nm w of
               (Inl err, w1) \<Rightarrow> (Internal_server_error, w1)
             | (Inr (Some localMedicine), w1) \<Rightarrow> (Available_locally localMedicine, w1)
             | (Inr None, w1) \<Rightarrow> fuzzy_stage e q nm w1))"

section \<open>POST / (routes/medicineRoutes.js)\<close>

text \<open>The JSON body of the request: \<open>None\<close> is a field that is absent.\<close>

record body =
  b_tabletName :: "string option"
  b_quantityInStock :: "int option"
  b_price :: "rat option"
  b_dosageFrequency :: "string option"
  b_usageInstructions :: "string option"
  b_foodWarnings :: "string option"

datatype add_response =
    Required
  | Already_exists string
  | Created medicine
  | Server_error

text \<open>
  \<^verbatim>\<open>Medicine.findOne({ tabletName })\<close>: the value of the filter is cast through the schema,
  whose \<^verbatim>\<open>trim\<close> setter trims it; the result is the first document whose name is exactly
  the trimmed name.
\<close>

definition findOne_by_name :: "string \<Rightarrow> world \<Rightarrow> medicine option \<times> world" where
  "findOne_by_name nm w =
     (find (\<lambda>m. tabletName m = trim nm) (store w), w\<lparr>calls := calls w @ [FindOneByName nm]\<rparr>)"

text \<open>
  \<^verbatim>\<open>new Medicine({...})\<close> and the validation \<^verbatim>\<open>save\<close> runs first, by the schema: the text
  fields are trimmed; the name is required, so is the price; quantity and price are not
  negative.
\<close>

definition new_Medicine :: "nat \<Rightarrow> string \<Rightarrow> int \<Rightarrow> body \<Rightarrow> error + medicine" where
  "new_Medicine now nm qty b =
     (case b_price b of
        None \<Rightarrow> Inl ValidationError
      | Some p \<Rightarrow>
          if trim nm = [] \<or> qty < 0 \<or> p < 0 then Inl ValidationError
          else Inr \<lparr>tabletName = trim nm, quantityInStock = qty, price = p,
                    dosageFrequency = map_option trim (b_dosageFrequency b),
                    usageInstructions = map_option trim (b_usageInstructions b),
                    foodWarnings = map_option trim (b_foodWarnings b),
                    createdAt = now\<rparr>)"

text \<open>
  The insert of \<^verbatim>\<open>save\<close>: the unique index on \<open>tabletName\<close> refuses a name some document
  already has (error code 11000); it compares names exactly.
\<close>

definition save :: "medicine \<Rightarrow> world \<Rightarrow> (error + unit) \<times> world" where
  "save doc w =
     (if tabletName doc \<in> set (map tabletName (store w))
      then (Inl DuplicateKey, w\<lparr>calls := calls w @ [Save]\<rparr>)
      else (Inr (), w\<lparr>store := store w @ [doc], calls := calls w @ [Save]\<rparr>))"

text \<open>The handler of \<^verbatim>\<open>router.post('/')\<close>; \<open>now\<close> is the clock reading.\<close>

definition post_medicine :: "nat \<Rightarrow> body \<Rightarrow> world \<Rightarrow> add_response \<times> world" where
  "post_medicine now b w =
     (case (b_tabletName b, b_quantityInStock b) of
        (Some nm, Some qty) \<Rightarrow>
          if nm = [] then (Required, w)
          else
            (case findOne_by_name nm w of
               (Some existing, w1) \<Rightarrow> (Already_exists nm, w1)
             | (None, w1) \<Rightarrow>
                 (case new_Medicine now nm qty b of
                    Inl err \<Rightarrow> (Server_error, w1)
                  | Inr newMed \<Rightarrow>
                      (case save newMed w1 of
                         (Inl err, w2) \<Rightarrow>
                           (if err = DuplicateKey then Already_exists nm else Server_error, w2)
                       | (Inr u, w2) \<Rightarrow> (Created newMed, w2))))
      | _ \<Rightarrow> (Required, w))"

text \<open>The responses that are an outcome of the resolution: the four with a \<^verbatim>\<open>status\<close> label.\<close>

fun is_outcome :: "response \<Rightarrow> bool" where
  "is_outcome (Available_locally m) = True"
| "is_outcome (Not_found_but_similar_exist ns) = True"
| "is_outcome (Alternative_available_locally m d) = True"
| "is_outcome (Not_available_anywhere ns d) = True"
| "is_outcome Name_required = False"
| "is_outcome Invalid_model = False"
| "is_outcome (Gemini_error msg) = False"
| "is_outcome Internal_server_error = False"

section \<open>Concrete inputs\<close>

text \<open>
  A document with the given name and stock, and an environment of stubs: a scorer that
  accepts a text only when it equals the pattern up to letter case, a suggestion service
  that answers with a fixed text, and a constructor that throws at every pattern beyond
  the syntax modelled.
\<close>

definition med :: "string \<Rightarrow> int \<Rightarrow> medicine" where
  "med nm qty = \<lparr>tabletName = nm, quantityInStock = qty, price = 10, dosageFrequency = None,
     usageInstructions = None, foodWarnings = None, createdAt = 0\<rparr>"

definition exact_only :: "rat \<Rightarrow> string \<Rightarrow> string \<Rightarrow> rat option" where
  "exact_only th pat txt = (if toLowerCase pat = toLowerCase txt then Some 0 else None)"

definition stub_env :: "gemini_reply \<Rightarrow> env" where
  "stub_env reply = \<lparr>other_regex = (\<lambda>pat. None), bitap = exact_only, gemini = (\<lambda>mdl nm. reply)\<rparr>"

section \<open>Letter case\<close>

lemma char_code:
  "char_of (n::nat) = c \<longleftrightarrow> n mod 256 = of_char c"
  "c = char_of (n::nat) \<longleftrightarrow> n mod 256 = of_char c"
  by (metis of_char_of char_of_char)+

text \<open>
  The canonical form and the lower-case form identify the same code units: the matcher's
  comparison of canonical forms is the comparison of lower-case forms.
\<close>

lemma lower_canonicalize: "lower_char (canonicalize c) = lower_char c"
  by (auto simp: lower_char_def canonicalize_def Let_def)

lemma canonicalize_lower: "canonicalize (lower_char c) = canonicalize c"
  by (auto simp: lower_char_def canonicalize_def Let_def)

lemma canonical_forms_agree_iff:
  "map canonicalize a = map canonicalize b \<longleftrightarrow> same_name_ci a b"
proof -
  have lower: "map lower_char (map canonicalize s) = map lower_char s" for s
    by (simp add: comp_def lower_canonicalize)
  have canonical: "map canonicalize (map lower_char s) = map canonicalize s" for s
    by (simp add: comp_def canonicalize_lower)
  show ?thesis
  proof
    assume "map canonicalize a = map canonicalize b"
    then have "map lower_char (map canonicalize a) = map lower_char (map canonicalize b)"
      by (rule arg_cong)
    then show "same_name_ci a b"
      unfolding lower by (simp add: same_name_ci_def toLowerCase_def)
  next
    assume "same_name_ci a b"
    then have "map lower_char a = map lower_char b"
      by (simp add: same_name_ci_def toLowerCase_def)
    then have "map canonicalize (map lower_char a) = map canonicalize (map lower_char b)"
      by (rule arg_cong)
    then show "map canonicalize a = map canonicalize b"
      unfolding canonical .
  qed
qed

section \<open>The anchored pattern of a name without syntax characters\<close>

lemma parse_plain:
  "metachar_free cs \<Longrightarrow>
   parse ((alts, cur) # rest) (cs @ ds) = parse ((alts, rev (map (\<lambda>c. Atom (Lit c)) cs) @ cur) # rest) ds"
proof (induction cs arbitrary: cur)
  case Nil
  then show ?case by simp
next
  case (Cons c cs)
  then show ?case
    by (simp add: metachar_free_def syntax_chars_def push_def)
qed

lemma ends_lits:
  "i \<le> length s \<Longrightarrow> ends (foldr (\<lambda>c r. Seq (Lit c) r) cs R) s i =
     (if i + length cs \<le> length s \<and> map canonicalize (take (length cs) (drop i s)) = map canonicalize cs
      then ends R s (i + length cs) else [])"
proof (induction cs arbitrary: i)
  case Nil
  then show ?case by simp
next
  case (Cons c cs)
  show ?case
  proof (cases "i < length s")
    case True
    then have "take (Suc (length cs)) (drop i s) = s ! i # take (length cs) (drop (Suc i) s)"
      by (simp add: Cons_nth_drop_Suc[symmetric])
    with True Cons.IH[of "Suc i"] show ?thesis by auto
  next
    case False
    then show ?thesis by simp
  qed
qed

lemma parse_anchored_plain:
  assumes "metachar_free nm"
  shows "parse [([], [])] (anchored nm) =
    Compiled (Seq Bol (foldr (\<lambda>c r. Seq (Lit c) r) nm (Seq Eol Eps)))"
proof -
  have "parse [([], [])] (anchored nm) = parse [([], [Assertion Bol])] (nm @ [CHR ''$''])"
    by (simp add: anchored_def push_def backslash_def)
  also have "\<dots> = parse [([], rev (map (\<lambda>c. Atom (Lit c)) nm) @ [Assertion Bol])] [CHR ''$'']"
    using assms by (rule parse_plain)
  also have "\<dots> = Compiled (seq_of (Assertion Eol # rev (map (\<lambda>c. Atom (Lit c)) nm) @ [Assertion Bol]))"
    by (simp add: push_def close_frame_def backslash_def)
  also have "seq_of (Assertion Eol # rev (map (\<lambda>c. Atom (Lit c)) nm) @ [Assertion Bol]) =
      Seq Bol (foldr (\<lambda>c r. Seq (Lit c) r) nm (Seq Eol Eps))"
    by (simp add: seq_of_def foldl_conv_foldr foldr_map comp_def)
  finally show ?thesis .
qed

lemma test_anchored_plain:
  "rx_test (Seq Bol (foldr (\<lambda>c r. Seq (Lit c) r) nm (Seq Eol Eps))) s \<longleftrightarrow> same_name_ci s nm"
proof -
  let ?R = "Seq Bol (foldr (\<lambda>c r. Seq (Lit c) r) nm (Seq Eol Eps))"
  have at0: "ends ?R s 0 \<noteq> [] \<longleftrightarrow> same_name_ci s nm"
  proof -
    have "ends ?R s 0 = (if length nm \<le> length s \<and> map canonicalize (take (length nm) s) = map canonicalize nm
        then ends (Seq Eol Eps) s (length nm) else [])"
      using ends_lits[of 0 s nm "Seq Eol Eps"] by simp
    moreover have "map canonicalize s = map canonicalize nm \<Longrightarrow> length s = length nm"
      by (metis length_map)
    ultimately show ?thesis
      by (auto simp: canonical_forms_agree_iff[symmetric])
  qed
  have other: "ends ?R s i = []" if "i \<noteq> 0" for i
    using that by simp
  show ?thesis
    unfolding rx_test_def list_ex_iff using at0 other
    by (metis atLeastLessThan_iff set_upt zero_le zero_less_Suc)
qed

section \<open>Lookups and the loop over the candidates\<close>

lemma findOne_in_stock_Inr:
  "fst (findOne_in_stock e nm w) = Inr x \<Longrightarrow>
   findOne_in_stock e nm w = (Inr x, w\<lparr>calls := calls w @ [FindOneInStock nm]\<rparr>)"
  by (auto simp: findOne_in_stock_def split: option.splits)

lemma findOne_in_stock_Inl:
  "fst (findOne_in_stock e nm w) = Inl err \<Longrightarrow> findOne_in_stock e nm w = (Inl err, w)"
  by (auto simp: findOne_in_stock_def split: option.splits)

lemma findOne_in_stock_same_store:
  "store w' = store w \<Longrightarrow> fst (findOne_in_stock e nm w') = fst (findOne_in_stock e nm w)"
  by (simp add: findOne_in_stock_def split: option.splits)

lemma check_alternatives_all_miss:
  "\<forall>a\<in>set alts. fst (findOne_in_stock e a w) = Inr None \<Longrightarrow>
   check_alternatives e alts w = (Inr None, w\<lparr>calls := calls w @ map FindOneInStock alts\<rparr>)"
proof (induction alts arbitrary: w)
  case Nil
  then show ?case by simp
next
  case (Cons a alts)
  let ?w' = "w\<lparr>calls := calls w @ [FindOneInStock a]\<rparr>"
  from Cons.prems have here: "findOne_in_stock e a w = (Inr None, ?w')"
    by (simp add: findOne_in_stock_Inr)
  have "\<forall>b\<in>set alts. fst (findOne_in_stock e b ?w') = Inr None"
    using Cons.prems by (simp add: findOne_in_stock_same_store[of ?w' w])
  from Cons.IH[OF this] here show ?case by simp
qed

lemma check_alternatives_first_hit:
  "\<forall>a\<in>set pre. fst (findOne_in_stock e a w) = Inr None \<Longrightarrow>
   fst (findOne_in_stock e c w) = Inr (Some r) \<Longrightarrow>
   check_alternatives e (pre @ c # post) w =
     (Inr (Some r), w\<lparr>calls := calls w @ map FindOneInStock (pre @ [c])\<rparr>)"
proof (induction pre arbitrary: w)
  case Nil
  then show ?case by (simp add: findOne_in_stock_Inr)
next
  case (Cons a pre)
  let ?w' = "w\<lparr>calls := calls w @ [FindOneInStock a]\<rparr>"
  from Cons.prems have here: "findOne_in_stock e a w = (Inr None, ?w')"
    by (simp add: findOne_in_stock_Inr)
  have "\<forall>b\<in>set pre. fst (findOne_in_stock e b ?w') = Inr None"
    and "fst (findOne_in_stock e c ?w') = Inr (Some r)"
    using Cons.prems by (simp_all add: findOne_in_stock_same_store[of ?w' w])
  from Cons.IH[OF this] here show ?case by simp
qed

lemma check_alternatives_inspects_prefix:
  "\<exists>n\<le>length alts. snd (check_alternatives e alts w) =
      w\<lparr>calls := calls w @ map FindOneInStock (take n alts)\<rparr>"
proof (induction alts arbitrary: w)
  case Nil
  then show ?case by simp
next
  case (Cons a alts)
  show ?case
  proof (cases "fst (findOne_in_stock e a w)")
    case (Inl err)
    then have "snd (check_alternatives e (a # alts) w) = w"
      by (simp add: findOne_in_stock_Inl)
    then show ?thesis by (intro exI[of _ 0]) simp
  next
    case (Inr found)
    let ?w' = "w\<lparr>calls := calls w @ [FindOneInStock a]\<rparr>"
    from Inr have here: "findOne_in_stock e a w = (Inr found, ?w')"
      by (simp add: findOne_in_stock_Inr)
    show ?thesis
    proof (cases found)
      case None
      from Cons.IH[of ?w'] obtain n where "n \<le> length alts"
        and "snd (check_alternatives e alts ?w') = ?w'\<lparr>calls := calls ?w' @ map FindOneInStock (take n alts)\<rparr>"
        by blast
      with here None show ?thesis by (intro exI[of _ "Suc n"]) simp
    next
      case (Some r)
      with here show ?thesis by (intro exI[of _ "Suc 0"]) simp
    qed
  qed
qed

lemma check_reaches_substitute:
  assumes "q_name q = Some nm" and "nm \<noteq> []"
    and "fst (findOne_in_stock e nm w) = Inr None"
    and "fuse_search e (store w) nm = []"
  shows "check e q w =
    substitute_stage e q nm (w\<lparr>calls := calls w @ [FindOneInStock nm, FindAll, FuseSearch nm]\<rparr>)"
  using assms
  by (simp add: check_def fuzzy_stage_def find_all_def search_def findOne_in_stock_Inr)

section \<open>The answer of the handler, stage by stage\<close>

lemma check_name_missing:
  "q_name q = None \<or> q_name q = Some [] \<Longrightarrow> check e q w = (Name_required, w)"
  by (auto simp: check_def)

lemma check_lookup_throws:
  "q_name q = Some nm \<Longrightarrow> nm \<noteq> [] \<Longrightarrow> fst (findOne_in_stock e nm w) = Inl err \<Longrightarrow>
   check e q w = (Internal_server_error, w)"
  by (simp add: check_def findOne_in_stock_Inl)

lemma check_exact_hit:
  "q_name q = Some nm \<Longrightarrow> nm \<noteq> [] \<Longrightarrow> fst (findOne_in_stock e nm w) = Inr (Some m) \<Longrightarrow>
   check e q w = (Available_locally m, w\<lparr>calls := calls w @ [FindOneInStock nm]\<rparr>)"
  by (simp add: check_def findOne_in_stock_Inr)

lemma check_exact_miss:
  "q_name q = Some nm \<Longrightarrow> nm \<noteq> [] \<Longrightarrow> fst (findOne_in_stock e nm w) = Inr None \<Longrightarrow>
   check e q w = fuzzy_stage e q nm (w\<lparr>calls := calls w @ [FindOneInStock nm]\<rparr>)"
  by (simp add: check_def findOne_in_stock_Inr)

lemma check_fuzzy_hit:
  "q_name q = Some nm \<Longrightarrow> nm \<noteq> [] \<Longrightarrow> fst (findOne_in_stock e nm w) = Inr None \<Longrightarrow>
   fuse_search e (store w) nm \<noteq> [] \<Longrightarrow>
   check e q w =
     (Not_found_but_similar_exist (map tabletName (take 3 (fuse_search e (store w) nm))),
      w\<lparr>calls := calls w @ [FindOneInStock nm, FindAll, FuseSearch nm]\<rparr>)"
  by (simp add: check_def findOne_in_stock_Inr fuzzy_stage_def find_all_def search_def)

lemma findOne_in_stock_throws:
  "new_RegExp_i e (anchored nm) = None \<Longrightarrow> findOne_in_stock e nm w = (Inl SyntaxError, w)"
  by (simp add: findOne_in_stock_def)

lemma findOne_in_stock_returns:
  "new_RegExp_i e (anchored nm) = Some test \<Longrightarrow>
   findOne_in_stock e nm w =
     (Inr (find (in_stock_match test) (store w)), w\<lparr>calls := calls w @ [FindOneInStock nm]\<rparr>)"
  by (simp add: findOne_in_stock_def)

text \<open>Every stage only adds to the log of calls.\<close>

lemma substitute_stage_appends:
  "\<exists>cs. snd (substitute_stage e q nm w) = w\<lparr>calls := calls w @ cs\<rparr>"
proof (cases "modelToUse q \<in> set allowedGeminiModels")
  case False
  then have "snd (substitute_stage e q nm w) = w\<lparr>calls := calls w @ []\<rparr>"
    by (simp add: substitute_stage_def)
  then show ?thesis by blast
next
  case True
  let ?w1 = "w\<lparr>calls := calls w @ [GenerateContent (modelToUse q) nm]\<rparr>"
  show ?thesis
  proof (cases "gemini e (modelToUse q) nm")
    case (ApiError msg)
    with True have "snd (substitute_stage e q nm w) = ?w1"
      by (simp add: substitute_stage_def generateContent_def)
    then show ?thesis by blast
  next
    case (Text rawResponse)
    let ?top3 = "take 3 (geminiAlternatives rawResponse)"
    from check_alternatives_inspects_prefix[of ?top3 e ?w1] obtain n where
      "snd (check_alternatives e ?top3 ?w1) = ?w1\<lparr>calls := calls ?w1 @ map FindOneInStock (take n ?top3)\<rparr>"
      by blast
    moreover have "snd (substitute_stage e q nm w) = snd (check_alternatives e ?top3 ?w1)"
      using True Text
      by (cases "check_alternatives e ?top3 ?w1")
         (auto simp: substitute_stage_def generateContent_def Let_def split: sum.splits option.splits)
    ultimately have "snd (substitute_stage e q nm w) =
        w\<lparr>calls := calls w @ (GenerateContent (modelToUse q) nm # map FindOneInStock (take n ?top3))\<rparr>"
      by simp
    then show ?thesis by blast
  qed
qed

lemma fuzzy_stage_appends:
  "\<exists>cs. snd (fuzzy_stage e q nm w) = w\<lparr>calls := calls w @ FindAll # FuseSearch nm # cs\<rparr>"
proof (cases "fuse_search e (store w) nm = []")
  case False
  then have "snd (fuzzy_stage e q nm w) = w\<lparr>calls := calls w @ FindAll # FuseSearch nm # []\<rparr>"
    by (simp add: fuzzy_stage_def find_all_def search_def)
  then show ?thesis by blast
next
  case True
  let ?w2 = "w\<lparr>calls := calls w @ [FindAll, FuseSearch nm]\<rparr>"
  from substitute_stage_appends[of e q nm ?w2] obtain cs where
    "snd (substitute_stage e q nm ?w2) = ?w2\<lparr>calls := calls ?w2 @ cs\<rparr>"
    by blast
  with True have "snd (fuzzy_stage e q nm w) = w\<lparr>calls := calls w @ FindAll # FuseSearch nm # cs\<rparr>"
    by (simp add: fuzzy_stage_def find_all_def search_def)
  then show ?thesis by blast
qed

text \<open>A name of white space only has no syntax character.\<close>

lemma trim_empty: "trim s = [] \<Longrightarrow> \<forall>c\<in>set s. is_space c"
proof -
  assume "trim s = []"
  then have "dropWhile is_space (rev (dropWhile is_space s)) = []"
    by (simp add: trim_def)
  then have all: "\<forall>c\<in>set (dropWhile is_space s). is_space c"
    by (simp add: dropWhile_eq_Nil_conv)
  have "dropWhile is_space s = []"
  proof (rule ccontr)
    assume ne: "dropWhile is_space s \<noteq> []"
    then have "\<not> is_space (hd (dropWhile is_space s))"
      by (rule hd_dropWhile)
    moreover from ne have "hd (dropWhile is_space s) \<in> set (dropWhile is_space s)"
      by simp
    ultimately show False using all by blast
  qed
  then show ?thesis
    by (simp add: dropWhile_eq_Nil_conv)
qed

lemma blank_metachar_free: "trim nm = [] \<Longrightarrow> metachar_free nm"
proof -
  assume "trim nm = []"
  then have "\<forall>c\<in>set nm. is_space c"
    by (rule trim_empty)
  moreover have "c \<notin> set syntax_chars" if "is_space c" for c
    using that by (auto simp: is_space_def syntax_chars_def backslash_def)
  ultimately show ?thesis
    by (auto simp: metachar_free_def list_all_iff)
qed

section \<open>What the constructor makes of a name\<close>

lemmas regex_eval = new_RegExp_i_def anchored_def push_def close_frame_def seq_of_def rx_test_def
  quantify_def canonicalize_def char_code backslash_def syntax_chars_def line_terminator_def
  same_name_ci_def toLowerCase_def lower_char_def

lemma new_RegExp_i_plain:
  assumes "metachar_free nm"
  shows "new_RegExp_i e (anchored nm) = Some (\<lambda>txt. same_name_ci txt nm)"
proof -
  have "rx_test (Seq Bol (foldr (\<lambda>c r. Seq (Lit c) r) nm (Seq Eol Eps))) = (\<lambda>txt. same_name_ci txt nm)"
    by (rule ext) (rule test_anchored_plain)
  with parse_anchored_plain[OF assms] show ?thesis
    by (simp add: new_RegExp_i_def)
qed

lemma pattern_dot: "(case new_RegExp_i e (anchored ''a.c'') of Some t \<Rightarrow> t ''abc'' | None \<Rightarrow> False)"
  by (simp add: regex_eval)

lemma pattern_paren: "(case new_RegExp_i e (anchored ''Zinc (50mg)'') of Some t \<Rightarrow> \<not> t ''Zinc (50mg)'' | None \<Rightarrow> False)"
  by (simp add: regex_eval)

lemma pattern_throw: "new_RegExp_i e (anchored ''('') = None"
  by (simp add: regex_eval)

section \<open>The exact-match predicate\<close>

text \<open>
  C10: the exact stage and the lookup of each candidate in the substitute stage use one
  filter, whose name part is the name placed between \<^verbatim>\<open>^\<close> and \<^verbatim>\<open>$\<close> and read as a
  pattern. For a name without syntax characters the constructor yields the test "equal to
  the name up to letter case", so a document satisfies the filter exactly when its name
  equals the looked-up name up to letter case and its stock is positive, and the lookup
  returns the first such document. Equality up to letter case is \<open>same_name_ci\<close>, the
  agreement of the lower-case forms, which is stated apart from the canonical forms the
  matcher compares. Beyond such names the equivalence is not guaranteed:
  the name \<^verbatim>\<open>a.c\<close> accepts the different name \<^verbatim>\<open>abc\<close>, the name \<^verbatim>\<open>Zinc (50mg)\<close> does not
  accept itself, and for the name \<^verbatim>\<open>(\<close> the constructor throws.
\<close>

theorem anchored_pattern_is_name_equality:
  "(metachar_free nm \<longrightarrow>
      new_RegExp_i e (anchored nm) = Some (\<lambda>txt. same_name_ci txt nm)
    \<and> (\<forall>test m. new_RegExp_i e (anchored nm) = Some test \<longrightarrow>
          (in_stock_match test m \<longleftrightarrow> same_name_ci (tabletName m) nm \<and> 0 < quantityInStock m))
    \<and> fst (findOne_in_stock e nm w) =
          Inr (find (\<lambda>m. same_name_ci (tabletName m) nm \<and> 0 < quantityInStock m) (store w)))
   \<and> (case new_RegExp_i e (anchored ''a.c'') of Some t \<Rightarrow> t ''abc'' | None \<Rightarrow> False)
   \<and> \<not> same_name_ci ''abc'' ''a.c''
   \<and> (case new_RegExp_i e (anchored ''Zinc (50mg)'') of Some t \<Rightarrow> \<not> t ''Zinc (50mg)'' | None \<Rightarrow> False)
   \<and> same_name_ci ''Zinc (50mg)'' ''Zinc (50mg)''
   \<and> new_RegExp_i e (anchored ''('') = None"
proof -
  have plain: "new_RegExp_i e (anchored nm) = Some (\<lambda>txt. same_name_ci txt nm)
    \<and> (\<forall>test m. new_RegExp_i e (anchored nm) = Some test \<longrightarrow>
          (in_stock_match test m \<longleftrightarrow> same_name_ci (tabletName m) nm \<and> 0 < quantityInStock m))
    \<and> fst (findOne_in_stock e nm w) =
          Inr (find (\<lambda>m. same_name_ci (tabletName m) nm \<and> 0 < quantityInStock m) (store w))"
    if "metachar_free nm"
    using new_RegExp_i_plain[OF that, of e]
    by (simp add: findOne_in_stock_def in_stock_match_def[abs_def])
  have "\<not> same_name_ci ''abc'' ''a.c''"
    by (simp add: regex_eval)
  with plain pattern_dot pattern_paren pattern_throw show ?thesis
    by (simp add: same_name_ci_def)
qed

theorem anchored_pattern_is_name_equality_witness:
  "metachar_free ''paracetamol''
   \<and> fst (findOne_in_stock (stub_env (Text ''none'')) ''paracetamol''
        \<lparr>store = [med ''Ibuprofen'' 5, med ''Paracetamol'' 0, med ''PARACETAMOL'' 10], calls = []\<rparr>)
     = Inr (Some (med ''PARACETAMOL'' 10))
   \<and> metachar_free [CHR ''c'', CHR ''a'', CHR ''f'', CHR 0xE9]
   \<and> fst (findOne_in_stock (stub_env (Text ''none'')) [CHR ''c'', CHR ''a'', CHR ''f'', CHR 0xE9]
        \<lparr>store = [med [CHR ''C'', CHR ''A'', CHR ''F'', CHR 0xC9] 3], calls = []\<rparr>)
     = Inr (Some (med [CHR ''C'', CHR ''A'', CHR ''F'', CHR 0xC9] 3))"
  using anchored_pattern_is_name_equality [of "''paracetamol''" "stub_env (Text ''none'')"
      "\<lparr>store = [med ''Ibuprofen'' 5, med ''Paracetamol'' 0, med ''PARACETAMOL'' 10], calls = []\<rparr>"]
    anchored_pattern_is_name_equality [of "[CHR ''c'', CHR ''a'', CHR ''f'', CHR 0xE9]"
      "stub_env (Text ''none'')" "\<lparr>store = [med [CHR ''C'', CHR ''A'', CHR ''F'', CHR 0xC9] 3], calls = []\<rparr>"]
  by (simp add: metachar_free_def syntax_chars_def backslash_def same_name_ci_def toLowerCase_def
      lower_char_def char_code med_def)

section \<open>The pipeline only reads the store\<close>

lemma findOne_in_stock_store: "store (snd (findOne_in_stock e nm w)) = store w"
  by (simp add: findOne_in_stock_def split: option.splits)

lemma check_alternatives_store: "store (snd (check_alternatives e alts w)) = store w"
  using check_alternatives_inspects_prefix[of alts e w] by auto

lemma substitute_stage_store: "store (snd (substitute_stage e q nm w)) = store w"
proof -
  have "store (snd (case check_alternatives e alts w1 of
                 (Inl err, w2) \<Rightarrow> (Internal_server_error, w2)
               | (Inr (Some inStock), w2) \<Rightarrow> (Alternative_available_locally inStock alternative_disclaimer, w2)
               | (Inr None, w2) \<Rightarrow> (Not_available_anywhere alts unavailable_disclaimer, w2))) = store w1"
    for alts w1
    using check_alternatives_store[of e alts w1]
    by (cases "check_alternatives e alts w1") (auto split: sum.splits option.splits)
  then show ?thesis
    by (simp add: substitute_stage_def generateContent_def Let_def split: gemini_reply.splits)
qed

lemma fuzzy_stage_store: "store (snd (fuzzy_stage e q nm w)) = store w"
  by (simp add: fuzzy_stage_def find_all_def search_def Let_def substitute_stage_store)

text \<open>
  C9: whatever the query, the environment and the state, the collection after the
  handler of \<^verbatim>\<open>/check\<close> has answered is the collection before it: every document, with
  its \<open>quantityInStock\<close> and every other field, is as it was, in every outcome and in
  every error branch.
\<close>

theorem check_leaves_store_unchanged: "store (snd (check e q w)) = store w"
proof (cases "q_name q")
  case None
  then show ?thesis by (simp add: check_def)
next
  case (Some nm)
  show ?thesis
  proof (cases "findOne_in_stock e nm w")
    case (Pair res w1)
    then have "store w1 = store w"
      using findOne_in_stock_store[of e nm w] by simp
    with Some Pair show ?thesis
      by (cases res) (auto simp: check_def fuzzy_stage_store split: option.splits)
  qed
qed

theorem check_leaves_store_unchanged_witness:
  "store (snd (check (stub_env (Text ''Paracetamol, Ibuprofen'')) \<lparr>q_name = Some ''Tylenol'', q_model = None\<rparr>
      \<lparr>store = [med ''Ibuprofen'' 5], calls = []\<rparr>)) = [med ''Ibuprofen'' 5]"
  using check_leaves_store_unchanged [of "stub_env (Text ''Paracetamol, Ibuprofen'')"
      "\<lparr>q_name = Some ''Tylenol'', q_model = None\<rparr>" "\<lparr>store = [med ''Ibuprofen'' 5], calls = []\<rparr>"]
  by simp

section \<open>The reply of the suggestion service\<close>

text \<open>
  C6: when the substitute stage is reached and the suggestion service replies with the
  token \<^verbatim>\<open>none\<close> in any letter case, the reply is read as no candidates: the handler
  answers \<open>Not_available_anywhere\<close> with an empty candidate list, an outcome with code
  200, after one call to the service and no candidate lookup.
\<close>

theorem none_reply_is_no_candidates:
  assumes "q_name q = Some nm" and "nm \<noteq> []"
    and "fst (findOne_in_stock e nm w) = Inr None"
    and "fuse_search e (store w) nm = []"
    and "modelToUse q \<in> set allowedGeminiModels"
    and "gemini e (modelToUse q) nm = Text rawResponse"
    and "toLowerCase rawResponse = ''none''"
  shows "check e q w =
     (Not_available_anywhere [] unavailable_disclaimer,
      w\<lparr>calls := calls w @ [FindOneInStock nm, FindAll, FuseSearch nm, GenerateContent (modelToUse q) nm]\<rparr>)
    \<and> is_outcome (fst (check e q w)) \<and> status_code (fst (check e q w)) = 200"
proof -
  have "geminiAlternatives rawResponse = []"
    using assms(7) by (simp add: geminiAlternatives_def)
  then show ?thesis
    using assms(5,6) check_reaches_substitute[OF assms(1-4)]
    by (simp add: substitute_stage_def generateContent_def)
qed

theorem none_reply_is_no_candidates_witness:
  "toLowerCase ''NoNe'' = ''none''
   \<and> check (stub_env (Text ''NoNe'')) \<lparr>q_name = Some ''Aspirin'', q_model = None\<rparr> \<lparr>store = [], calls = []\<rparr>
     = (Not_available_anywhere [] unavailable_disclaimer,
        \<lparr>store = [], calls = [FindOneInStock ''Aspirin'', FindAll, FuseSearch ''Aspirin'',
           GenerateContent ''gemini-2.5-flash-lite-preview-06-17'' ''Aspirin'']\<rparr>)"
proof -
  let ?e = "stub_env (Text ''NoNe'')"
  let ?q = "\<lparr>q_name = Some ''Aspirin'', q_model = None\<rparr>"
  let ?w = "\<lparr>store = [], calls = []\<rparr>"
  have 1: "q_name ?q = Some ''Aspirin''" and 2: "''Aspirin'' \<noteq> []" by simp_all
  have 3: "fst (findOne_in_stock ?e ''Aspirin'' ?w) = Inr None"
    by (simp add: findOne_in_stock_def regex_eval)
  have 4: "fuse_search ?e (store ?w) ''Aspirin'' = []"
    by (simp add: fuse_search_def List.map_filter_def)
  have 5: "modelToUse ?q \<in> set allowedGeminiModels"
    by (simp add: modelToUse_def default_model_def allowedGeminiModels_def)
  have 6: "gemini ?e (modelToUse ?q) ''Aspirin'' = Text ''NoNe''"
    by (simp add: stub_env_def)
  have 7: "toLowerCase ''NoNe'' = ''none''"
    by (simp add: toLowerCase_def lower_char_def char_code)
  from none_reply_is_no_candidates [OF 1 2 3 4 5 6 7] 7 show ?thesis
    by (simp add: modelToUse_def default_model_def)
qed

text \<open>
  C7: when the call to the suggestion service fails in the substitute stage, the handler
  answers with the error \<open>Gemini_error\<close>, code 502, carrying the message of the failure;
  this response is none of the four outcomes, and no candidate is looked up.
\<close>

theorem gemini_failure_is_bad_gateway:
  assumes "q_name q = Some nm" and "nm \<noteq> []"
    and "fst (findOne_in_stock e nm w) = Inr None"
    and "fuse_search e (store w) nm = []"
    and "modelToUse q \<in> set allowedGeminiModels"
    and "gemini e (modelToUse q) nm = ApiError msg"
  shows "check e q w =
     (Gemini_error msg,
      w\<lparr>calls := calls w @ [FindOneInStock nm, FindAll, FuseSearch nm, GenerateContent (modelToUse q) nm]\<rparr>)
    \<and> \<not> is_outcome (fst (check e q w)) \<and> status_code (fst (check e q w)) = 502"
  using assms(5,6) check_reaches_substitute[OF assms(1-4)]
  by (simp add: substitute_stage_def generateContent_def)

theorem gemini_failure_is_bad_gateway_witness:
  "check (stub_env (ApiError ''API key not valid'')) \<lparr>q_name = Some ''Aspirin'', q_model = Some ''gemini-2.0-pro-exp''\<rparr>
      \<lparr>store = [med ''Ibuprofen'' 5], calls = []\<rparr>
     = (Gemini_error ''API key not valid'',
        \<lparr>store = [med ''Ibuprofen'' 5], calls = [FindOneInStock ''Aspirin'', FindAll, FuseSearch ''Aspirin'',
           GenerateContent ''gemini-2.0-pro-exp'' ''Aspirin'']\<rparr>)"
proof -
  let ?e = "stub_env (ApiError ''API key not valid'')"
  let ?q = "\<lparr>q_name = Some ''Aspirin'', q_model = Some ''gemini-2.0-pro-exp''\<rparr>"
  let ?w = "\<lparr>store = [med ''Ibuprofen'' 5], calls = []\<rparr>"
  have 1: "q_name ?q = Some ''Aspirin''" and 2: "''Aspirin'' \<noteq> []" by simp_all
  have 3: "fst (findOne_in_stock ?e ''Aspirin'' ?w) = Inr None"
    by (simp add: findOne_in_stock_def in_stock_match_def med_def regex_eval)
  have 4: "fuse_search ?e (store ?w) ''Aspirin'' = []"
    by (simp add: fuse_search_def List.map_filter_def stub_env_def exact_only_def med_def
        toLowerCase_def lower_char_def char_code)
  have 5: "modelToUse ?q \<in> set allowedGeminiModels"
    by (simp add: modelToUse_def allowedGeminiModels_def)
  have 6: "gemini ?e (modelToUse ?q) ''Aspirin'' = ApiError ''API key not valid''"
    by (simp add: stub_env_def)
  from gemini_failure_is_bad_gateway [OF 1 2 3 4 5 6] show ?thesis
    by (simp add: modelToUse_def)
qed

section \<open>Validation of the query\<close>

lemmas char_eval = toLowerCase_def lower_char_def canonicalize_def char_code trim_def is_space_def

lemmas stub_eval = stub_env_def exact_only_def med_def fuse_search_def List.map_filter_def
  modelToUse_def default_model_def allowedGeminiModels_def geminiAlternatives_def
  findOne_in_stock_def in_stock_match_def

lemmas handler_eval = check_def fuzzy_stage_def substitute_stage_def find_all_def search_def
  generateContent_def

text \<open>
  C5, as the handler has it: a query whose name is absent or empty is answered with the
  input error \<open>Name_required\<close>, code 400, and nothing else happens: the state, with its
  log of calls, is returned as it was, so there is no lookup and no call to the
  suggestion service. Every other name passes the validation and enters the exact stage:
  the answer is not \<open>Name_required\<close>; when the constructor rejects the pattern of the
  name the answer is the error of code 500 and no call is made; otherwise the first call
  is the exact lookup of the name as given, and the answer is \<open>Available_locally\<close> with
  the document the lookup returns, or the answer of the later stages when it returns
  none. A name of white space only is such a name, and its pattern is never rejected: the
  exact lookup is made.
\<close>

theorem empty_name_is_rejected:
  "(q_name q = None \<or> q_name q = Some [] \<longrightarrow>
      check e q w = (Name_required, w) \<and> status_code (fst (check e q w)) = 400)
   \<and> (\<forall>nm. q_name q = Some nm \<and> nm \<noteq> [] \<longrightarrow> fst (check e q w) \<noteq> Name_required)
   \<and> (\<forall>nm. q_name q = Some nm \<and> nm \<noteq> [] \<longrightarrow>
         (new_RegExp_i e (anchored nm) = None \<longrightarrow> check e q w = (Internal_server_error, w))
       \<and> (\<forall>test. new_RegExp_i e (anchored nm) = Some test \<longrightarrow>
            (\<exists>cs. calls (snd (check e q w)) = calls w @ FindOneInStock nm # cs)
          \<and> (\<forall>m. find (in_stock_match test) (store w) = Some m \<longrightarrow>
                check e q w = (Available_locally m, w\<lparr>calls := calls w @ [FindOneInStock nm]\<rparr>))
          \<and> (find (in_stock_match test) (store w) = None \<longrightarrow>
                check e q w = fuzzy_stage e q nm (w\<lparr>calls := calls w @ [FindOneInStock nm]\<rparr>))))
   \<and> (\<forall>nm. q_name q = Some nm \<and> nm \<noteq> [] \<and> trim nm = [] \<longrightarrow>
         new_RegExp_i e (anchored nm) = Some (\<lambda>txt. same_name_ci txt nm)
       \<and> (\<exists>cs. calls (snd (check e q w)) = calls w @ FindOneInStock nm # cs))"
proof -
  have rejected: "check e q w = (Name_required, w) \<and> status_code (fst (check e q w)) = 400"
    if "q_name q = None \<or> q_name q = Some []"
    using check_name_missing[OF that, of e w] by simp
  have throws: "check e q w = (Internal_server_error, w)"
    if "q_name q = Some nm" "nm \<noteq> []" "new_RegExp_i e (anchored nm) = None" for nm
    using that check_lookup_throws[of q nm e w SyntaxError]
    by (simp add: findOne_in_stock_throws)
  have hit: "check e q w = (Available_locally m, w\<lparr>calls := calls w @ [FindOneInStock nm]\<rparr>)"
    if "q_name q = Some nm" "nm \<noteq> []" "new_RegExp_i e (anchored nm) = Some test"
      "find (in_stock_match test) (store w) = Some m" for nm test m
    using that check_exact_hit[of q nm e w m]
    by (simp add: findOne_in_stock_returns)
  have miss: "check e q w = fuzzy_stage e q nm (w\<lparr>calls := calls w @ [FindOneInStock nm]\<rparr>)"
    if "q_name q = Some nm" "nm \<noteq> []" "new_RegExp_i e (anchored nm) = Some test"
      "find (in_stock_match test) (store w) = None" for nm test
    using that check_exact_miss[of q nm e w]
    by (simp add: findOne_in_stock_returns)
  have looked_up: "\<exists>cs. calls (snd (check e q w)) = calls w @ FindOneInStock nm # cs"
    if name: "q_name q = Some nm" "nm \<noteq> []" and re: "new_RegExp_i e (anchored nm) = Some test"
    for nm test
  proof (cases "find (in_stock_match test) (store w)")
    case (Some m)
    from hit[OF name re Some] show ?thesis by simp
  next
    case None
    let ?w1 = "w\<lparr>calls := calls w @ [FindOneInStock nm]\<rparr>"
    from fuzzy_stage_appends[of e q nm ?w1] obtain cs where
      "snd (fuzzy_stage e q nm ?w1) = ?w1\<lparr>calls := calls ?w1 @ FindAll # FuseSearch nm # cs\<rparr>"
      by blast
    with miss[OF name re None] show ?thesis by simp
  qed
  have passes: "fst (check e q w) \<noteq> Name_required" if name: "q_name q = Some nm" "nm \<noteq> []" for nm
  proof (cases "new_RegExp_i e (anchored nm)")
    case None
    from throws[OF name None] show ?thesis by simp
  next
    case (Some test)
    show ?thesis
    proof (cases "find (in_stock_match test) (store w)")
      case (Some m)
      from hit[OF name \<open>new_RegExp_i e (anchored nm) = Some test\<close> Some] show ?thesis by simp
    next
      case None
      from miss[OF name \<open>new_RegExp_i e (anchored nm) = Some test\<close> None] show ?thesis
        by (auto simp: fuzzy_stage_def find_all_def search_def substitute_stage_def
            generateContent_def Let_def
            split: gemini_reply.splits prod.splits sum.splits option.splits)
    qed
  qed
  have blank: "new_RegExp_i e (anchored nm) = Some (\<lambda>txt. same_name_ci txt nm)
       \<and> (\<exists>cs. calls (snd (check e q w)) = calls w @ FindOneInStock nm # cs)"
    if name: "q_name q = Some nm" "nm \<noteq> []" and "trim nm = []" for nm
  proof -
    from \<open>trim nm = []\<close> have "metachar_free nm"
      by (rule blank_metachar_free)
    then have re: "new_RegExp_i e (anchored nm) = Some (\<lambda>txt. same_name_ci txt nm)"
      by (rule new_RegExp_i_plain)
    with looked_up[OF name re] show ?thesis by simp
  qed
  from rejected passes throws hit miss looked_up blank show ?thesis
    by blast
qed

theorem empty_name_is_rejected_witness:
  "check (stub_env (Text ''none'')) \<lparr>q_name = Some [], q_model = None\<rparr> \<lparr>store = [med ''Aspirin'' 5], calls = []\<rparr>
     = (Name_required, \<lparr>store = [med ''Aspirin'' 5], calls = []\<rparr>)
   \<and> fst (check (stub_env (Text ''none'')) \<lparr>q_name = Some ''Aspirin'', q_model = None\<rparr>
        \<lparr>store = [med ''Aspirin'' 5], calls = []\<rparr>) \<noteq> Name_required
   \<and> trim ''  '' = []
   \<and> (\<exists>cs. calls (snd (check (stub_env (Text ''none'')) \<lparr>q_name = Some ''  '', q_model = None\<rparr>
        \<lparr>store = [med ''Aspirin'' 5], calls = []\<rparr>)) = FindOneInStock ''  '' # cs)"
proof -
  let ?e = "stub_env (Text ''none'')"
  let ?w = "\<lparr>store = [med ''Aspirin'' 5], calls = []\<rparr>"
  have blank: "trim ''  '' = []"
    by (simp add: trim_def is_space_def)
  from empty_name_is_rejected [of "\<lparr>q_name = Some [], q_model = None\<rparr>" ?e ?w]
    empty_name_is_rejected [of "\<lparr>q_name = Some ''Aspirin'', q_model = None\<rparr>" ?e ?w]
    empty_name_is_rejected [of "\<lparr>q_name = Some ''  '', q_model = None\<rparr>" ?e ?w] blank
  show ?thesis by simp
qed

text \<open>
  The claim C5 as stated fails at a name of two spaces: with an empty collection the
  handler runs all three stages and answers \<open>Not_available_anywhere\<close>.
\<close>

theorem whitespace_name_counterexample:
  "trim ''  '' = []
   \<and> check (stub_env (Text ''none'')) \<lparr>q_name = Some ''  '', q_model = None\<rparr> \<lparr>store = [], calls = []\<rparr>
     = (Not_available_anywhere [] unavailable_disclaimer,
        \<lparr>store = [], calls = [FindOneInStock ''  '', FindAll, FuseSearch ''  '',
           GenerateContent ''gemini-2.5-flash-lite-preview-06-17'' ''  '']\<rparr>)"
  by (simp add: char_eval stub_eval handler_eval regex_eval)

text \<open>
  C4, as the handler has it: a query with a non-empty model identifier outside the
  allow-list never leads to a call to the suggestion service, whatever the collection
  holds; it is answered with the input error \<open>Invalid_model\<close>, code 400, when the exact
  stage and the fuzzy stage have both missed, after the three calls of these stages. In
  every other case the model identifier is not examined: an absent or empty name is
  answered \<open>Name_required\<close>, a lookup that throws with the error of code 500, a hit of
  the exact stage with \<open>Available_locally\<close> and the document, a find of the fuzzy stage
  with \<open>Not_found_but_similar_exist\<close> and its names, and the answer is the same for any
  other model identifier.
\<close>

theorem invalid_model_rejected_lazily:
  assumes "q_model q = Some mdl" and "mdl \<noteq> []" and "mdl \<notin> set allowedGeminiModels"
  shows "(\<exists>cs. calls (snd (check e q w)) = calls w @ cs \<and> (\<forall>m n. GenerateContent m n \<notin> set cs))
    \<and> (\<forall>nm. q_name q = Some nm \<and> nm \<noteq> [] \<and> fst (findOne_in_stock e nm w) = Inr None
            \<and> fuse_search e (store w) nm = [] \<longrightarrow>
          check e q w = (Invalid_model, w\<lparr>calls := calls w @ [FindOneInStock nm, FindAll, FuseSearch nm]\<rparr>)
          \<and> status_code (fst (check e q w)) = 400)
    \<and> (q_name q = None \<or> q_name q = Some [] \<longrightarrow> check e q w = (Name_required, w))
    \<and> (\<forall>nm. q_name q = Some nm \<and> nm \<noteq> [] \<longrightarrow>
          (\<forall>err. fst (findOne_in_stock e nm w) = Inl err \<longrightarrow>
              check e q w = (Internal_server_error, w))
        \<and> (\<forall>m. fst (findOne_in_stock e nm w) = Inr (Some m) \<longrightarrow>
              check e q w = (Available_locally m, w\<lparr>calls := calls w @ [FindOneInStock nm]\<rparr>))
        \<and> (fst (findOne_in_stock e nm w) = Inr None \<and> fuse_search e (store w) nm \<noteq> [] \<longrightarrow>
              check e q w =
                (Not_found_but_similar_exist (map tabletName (take 3 (fuse_search e (store w) nm))),
                 w\<lparr>calls := calls w @ [FindOneInStock nm, FindAll, FuseSearch nm]\<rparr>)))
    \<and> ((\<forall>nm. q_name q = Some nm \<and> nm \<noteq> [] \<longrightarrow>
            fst (findOne_in_stock e nm w) \<noteq> Inr None \<or> fuse_search e (store w) nm \<noteq> []) \<longrightarrow>
         (\<forall>other. check e (q\<lparr>q_model := other\<rparr>) w = check e q w))"
proof -
  from assms have bad: "modelToUse q \<notin> set allowedGeminiModels"
    by (simp add: modelToUse_def)
  then have sub: "substitute_stage e q nm w' = (Invalid_model, w')" for nm w'
    by (simp add: substitute_stage_def)
  have lazy: "check e q w = (Invalid_model, w\<lparr>calls := calls w @ [FindOneInStock nm, FindAll, FuseSearch nm]\<rparr>)"
    if "q_name q = Some nm" "nm \<noteq> []" "fst (findOne_in_stock e nm w) = Inr None"
      "fuse_search e (store w) nm = []" for nm
    using check_reaches_substitute[OF that] sub by simp
  have quiet: "\<exists>cs. calls (snd (check e q w)) = calls w @ cs \<and> (\<forall>m n. GenerateContent m n \<notin> set cs)"
  proof (cases "q_name q = None \<or> q_name q = Some []")
    case True
    from check_name_missing[OF True, of e w] show ?thesis by simp
  next
    case False
    then obtain nm where name: "q_name q = Some nm" "nm \<noteq> []" by auto
    show ?thesis
    proof (cases "fst (findOne_in_stock e nm w)")
      case (Inl err)
      from check_lookup_throws[OF name Inl] show ?thesis by simp
    next
      case (Inr found)
      show ?thesis
      proof (cases found)
        case (Some localMedicine)
        with Inr check_exact_hit[OF name, of e w localMedicine] show ?thesis by simp
      next
        case None
        show ?thesis
        proof (cases "fuse_search e (store w) nm = []")
          case True
          with None Inr lazy[OF name] show ?thesis by simp
        next
          case False
          with None Inr check_fuzzy_hit[OF name, of e w] show ?thesis by simp
        qed
      qed
    qed
  qed
  have same: "check e (q\<lparr>q_model := other\<rparr>) w = check e q w"
    if early: "\<forall>nm. q_name q = Some nm \<and> nm \<noteq> [] \<longrightarrow>
            fst (findOne_in_stock e nm w) \<noteq> Inr None \<or> fuse_search e (store w) nm \<noteq> []"
    for other
  proof (cases "q_name q = None \<or> q_name q = Some []")
    case True
    then have "q_name (q\<lparr>q_model := other\<rparr>) = None \<or> q_name (q\<lparr>q_model := other\<rparr>) = Some []"
      by simp
    from check_name_missing[OF this, of e w] check_name_missing[OF True, of e w]
    show ?thesis by simp
  next
    case False
    then obtain nm where name: "q_name q = Some nm" "nm \<noteq> []" by auto
    then have name': "q_name (q\<lparr>q_model := other\<rparr>) = Some nm" by simp
    show ?thesis
    proof (cases "fst (findOne_in_stock e nm w)")
      case (Inl err)
      from check_lookup_throws[OF name Inl] check_lookup_throws[OF name' name(2) Inl]
      show ?thesis by simp
    next
      case (Inr found)
      show ?thesis
      proof (cases found)
        case (Some localMedicine)
        with Inr have hit: "fst (findOne_in_stock e nm w) = Inr (Some localMedicine)" by simp
        from check_exact_hit[OF name hit] check_exact_hit[OF name' name(2) hit]
        show ?thesis by simp
      next
        case None
        with Inr have miss: "fst (findOne_in_stock e nm w) = Inr None" by simp
        with early name have found: "fuse_search e (store w) nm \<noteq> []" by blast
        from check_fuzzy_hit[OF name miss found] check_fuzzy_hit[OF name' name(2) miss found]
        show ?thesis by simp
      qed
    qed
  qed
  have early: "(\<forall>err. fst (findOne_in_stock e nm w) = Inl err \<longrightarrow>
              check e q w = (Internal_server_error, w))
        \<and> (\<forall>m. fst (findOne_in_stock e nm w) = Inr (Some m) \<longrightarrow>
              check e q w = (Available_locally m, w\<lparr>calls := calls w @ [FindOneInStock nm]\<rparr>))
        \<and> (fst (findOne_in_stock e nm w) = Inr None \<and> fuse_search e (store w) nm \<noteq> [] \<longrightarrow>
              check e q w =
                (Not_found_but_similar_exist (map tabletName (take 3 (fuse_search e (store w) nm))),
                 w\<lparr>calls := calls w @ [FindOneInStock nm, FindAll, FuseSearch nm]\<rparr>))"
    if name: "q_name q = Some nm" "nm \<noteq> []" for nm
    using check_lookup_throws[OF name, of e w] check_exact_hit[OF name, of e w]
      check_fuzzy_hit[OF name, of e w]
    by blast
  have absent: "check e q w = (Name_required, w)" if "q_name q = None \<or> q_name q = Some []"
    using that by (rule check_name_missing)
  have rejected: "check e q w = (Invalid_model, w\<lparr>calls := calls w @ [FindOneInStock nm, FindAll, FuseSearch nm]\<rparr>)
          \<and> status_code (fst (check e q w)) = 400"
    if "q_name q = Some nm" "nm \<noteq> []" "fst (findOne_in_stock e nm w) = Inr None"
      "fuse_search e (store w) nm = []" for nm
    using lazy[OF that] by simp
  show ?thesis
    using quiet rejected absent early same by (intro conjI allI impI) blast+
qed

theorem invalid_model_rejected_lazily_witness:
  "''gpt-4'' \<noteq> [] \<and> ''gpt-4'' \<notin> set allowedGeminiModels
   \<and> check (stub_env (Text ''Ibuprofen'')) \<lparr>q_name = Some ''Aspirin'', q_model = Some ''gpt-4''\<rparr>
        \<lparr>store = [med ''Ibuprofen'' 5], calls = []\<rparr>
     = (Invalid_model,
        \<lparr>store = [med ''Ibuprofen'' 5], calls = [FindOneInStock ''Aspirin'', FindAll, FuseSearch ''Aspirin'']\<rparr>)
   \<and> check (stub_env (Text ''Ibuprofen'')) \<lparr>q_name = Some ''Aspirin'', q_model = Some ''gpt-4''\<rparr>
        \<lparr>store = [med ''aspirin'' 2], calls = []\<rparr>
     = (Available_locally (med ''aspirin'' 2),
        \<lparr>store = [med ''aspirin'' 2], calls = [FindOneInStock ''Aspirin'']\<rparr>)
   \<and> check (stub_env (Text ''Ibuprofen'')) \<lparr>q_name = Some ''Aspirin'', q_model = None\<rparr>
        \<lparr>store = [med ''aspirin'' 2], calls = []\<rparr>
     = (Available_locally (med ''aspirin'' 2),
        \<lparr>store = [med ''aspirin'' 2], calls = [FindOneInStock ''Aspirin'']\<rparr>)"
proof -
  let ?e = "stub_env (Text ''Ibuprofen'')"
  let ?q = "\<lparr>q_name = Some ''Aspirin'', q_model = Some ''gpt-4''\<rparr>"
  let ?w = "\<lparr>store = [med ''Ibuprofen'' 5], calls = []\<rparr>"
  let ?w' = "\<lparr>store = [med ''aspirin'' 2], calls = []\<rparr>"
  have 1: "q_model ?q = Some ''gpt-4''" and 2: "''gpt-4'' \<noteq> []" by simp_all
  have 3: "''gpt-4'' \<notin> set allowedGeminiModels"
    by (simp add: allowedGeminiModels_def)
  have 4: "fst (findOne_in_stock ?e ''Aspirin'' ?w) = Inr None"
    by (simp add: findOne_in_stock_def in_stock_match_def med_def regex_eval)
  have 5: "fuse_search ?e (store ?w) ''Aspirin'' = []"
    by (simp add: stub_eval char_eval)
  have 6: "fst (findOne_in_stock ?e ''Aspirin'' ?w') = Inr (Some (med ''aspirin'' 2))"
    by (simp add: findOne_in_stock_def in_stock_match_def med_def regex_eval)
  have lazy: "check ?e ?q ?w = (Invalid_model,
        \<lparr>store = [med ''Ibuprofen'' 5], calls = [FindOneInStock ''Aspirin'', FindAll, FuseSearch ''Aspirin'']\<rparr>)"
    using invalid_model_rejected_lazily [OF 1 2 3, of ?e ?w] 4 5 by simp
  have hit: "check ?e ?q ?w' = (Available_locally (med ''aspirin'' 2),
        \<lparr>store = [med ''aspirin'' 2], calls = [FindOneInStock ''Aspirin'']\<rparr>)"
    using invalid_model_rejected_lazily [OF 1 2 3, of ?e ?w'] 6 by simp
  have early: "\<forall>nm. q_name ?q = Some nm \<and> nm \<noteq> [] \<longrightarrow>
      fst (findOne_in_stock ?e nm ?w') \<noteq> Inr None \<or> fuse_search ?e (store ?w') nm \<noteq> []"
    using 6 by simp
  have "\<forall>other. check ?e (?q\<lparr>q_model := other\<rparr>) ?w' = check ?e ?q ?w'"
    using invalid_model_rejected_lazily [OF 1 2 3, of ?e ?w'] early by blast
  from this[rule_format, of None] lazy hit 2 3 show ?thesis by simp
qed

text \<open>
  The claim C4 as stated fails when an earlier stage answers: the model \<^verbatim>\<open>gpt-4\<close> is not
  allowed, yet a name in stock is answered with \<open>Available_locally\<close>.
\<close>

theorem invalid_model_counterexample:
  "''gpt-4'' \<notin> set allowedGeminiModels
   \<and> check (stub_env (Text ''none'')) \<lparr>q_name = Some ''Aspirin'', q_model = Some ''gpt-4''\<rparr>
        \<lparr>store = [med ''Aspirin'' 5], calls = []\<rparr>
     = (Available_locally (med ''Aspirin'' 5),
        \<lparr>store = [med ''Aspirin'' 5], calls = [FindOneInStock ''Aspirin'']\<rparr>)"
  by (simp add: char_eval stub_eval handler_eval regex_eval)

section \<open>The substitute stage\<close>

text \<open>
  C3: when the substitute stage runs with a reply of the suggestion service, the
  candidates are the first three names read from the reply. They are looked up in that
  order with the filter of the exact stage, and only an initial part of them is looked
  up. If the candidates before some candidate all miss and that candidate is found in
  stock, the answer is \<open>Alternative_available_locally\<close> with the document found and the
  advisory disclaimer, and the later candidates are not looked up. If every candidate
  misses, the answer is \<open>Not_available_anywhere\<close> with the candidate list and the
  disclaimer.
\<close>

theorem substitute_stage_first_in_stock:
  assumes "q_name q = Some nm" and "nm \<noteq> []"
    and "fst (findOne_in_stock e nm w) = Inr None"
    and "fuse_search e (store w) nm = []"
    and "modelToUse q \<in> set allowedGeminiModels"
    and "gemini e (modelToUse q) nm = Text rawResponse"
    and "top3 = take 3 (geminiAlternatives rawResponse)"
    and "w1 = w\<lparr>calls := calls w @ [FindOneInStock nm, FindAll, FuseSearch nm, GenerateContent (modelToUse q) nm]\<rparr>"
  shows "length top3 \<le> 3
    \<and> (\<exists>n\<le>length top3. snd (check e q w) = w1\<lparr>calls := calls w1 @ map FindOneInStock (take n top3)\<rparr>)
    \<and> (\<forall>pre alt post inStock.
          top3 = pre @ alt # post
          \<and> (\<forall>a\<in>set pre. fst (findOne_in_stock e a w) = Inr None)
          \<and> fst (findOne_in_stock e alt w) = Inr (Some inStock) \<longrightarrow>
          check e q w = (Alternative_available_locally inStock alternative_disclaimer,
                         w1\<lparr>calls := calls w1 @ map FindOneInStock (pre @ [alt])\<rparr>))
    \<and> ((\<forall>a\<in>set top3. fst (findOne_in_stock e a w) = Inr None) \<longrightarrow>
          check e q w = (Not_available_anywhere top3 unavailable_disclaimer,
                         w1\<lparr>calls := calls w1 @ map FindOneInStock top3\<rparr>))"
proof -
  have same: "fst (findOne_in_stock e a w1) = fst (findOne_in_stock e a w)" for a
    by (rule findOne_in_stock_same_store) (simp add: assms(8))
  have stage: "check e q w =
    (case check_alternatives e top3 w1 of
       (Inl err, w2) \<Rightarrow> (Internal_server_error, w2)
     | (Inr (Some inStock), w2) \<Rightarrow> (Alternative_available_locally inStock alternative_disclaimer, w2)
     | (Inr None, w2) \<Rightarrow> (Not_available_anywhere top3 unavailable_disclaimer, w2))"
    unfolding assms(7,8) check_reaches_substitute[OF assms(1-4)]
    using assms(5,6) by (simp add: substitute_stage_def generateContent_def Let_def)
  have len: "length top3 \<le> 3"
    by (simp add: assms(7))
  have insp: "\<exists>n\<le>length top3. snd (check e q w) = w1\<lparr>calls := calls w1 @ map FindOneInStock (take n top3)\<rparr>"
  proof -
    from check_alternatives_inspects_prefix[of top3 e w1] obtain n where "n \<le> length top3"
      and "snd (check_alternatives e top3 w1) = w1\<lparr>calls := calls w1 @ map FindOneInStock (take n top3)\<rparr>"
      by blast
    moreover have "snd (check e q w) = snd (check_alternatives e top3 w1)"
      unfolding stage by (cases "check_alternatives e top3 w1") (auto split: sum.splits option.splits)
    ultimately show ?thesis by auto
  qed
  have hit: "check e q w = (Alternative_available_locally inStock alternative_disclaimer,
                         w1\<lparr>calls := calls w1 @ map FindOneInStock (pre @ [alt])\<rparr>)"
    if "top3 = pre @ alt # post" "\<forall>a\<in>set pre. fst (findOne_in_stock e a w) = Inr None"
      "fst (findOne_in_stock e alt w) = Inr (Some inStock)" for pre alt post inStock
  proof -
    have "check_alternatives e (pre @ alt # post) w1 =
        (Inr (Some inStock), w1\<lparr>calls := calls w1 @ map FindOneInStock (pre @ [alt])\<rparr>)"
      by (rule check_alternatives_first_hit) (simp_all add: same that)
    then show ?thesis unfolding stage that(1) by simp
  qed
  have miss: "check e q w = (Not_available_anywhere top3 unavailable_disclaimer,
                         w1\<lparr>calls := calls w1 @ map FindOneInStock top3\<rparr>)"
    if "\<forall>a\<in>set top3. fst (findOne_in_stock e a w) = Inr None"
  proof -
    have "check_alternatives e top3 w1 = (Inr None, w1\<lparr>calls := calls w1 @ map FindOneInStock top3\<rparr>)"
      by (rule check_alternatives_all_miss) (simp add: same that)
    then show ?thesis unfolding stage by simp
  qed
  from len insp hit miss show ?thesis by blast
qed

theorem substitute_stage_first_in_stock_witness:
  "take 3 (geminiAlternatives ''Paracetamol, Ibuprofen, Naproxen, Diclofenac'') = [''Paracetamol'', ''Ibuprofen'', ''Naproxen'']
   \<and> check (stub_env (Text ''Paracetamol, Ibuprofen, Naproxen, Diclofenac'')) \<lparr>q_name = Some ''Tylenol'', q_model = None\<rparr>
        \<lparr>store = [med ''Naproxen'' 7, med ''Ibuprofen'' 5], calls = []\<rparr>
     = (Alternative_available_locally (med ''Ibuprofen'' 5) alternative_disclaimer,
        \<lparr>store = [med ''Naproxen'' 7, med ''Ibuprofen'' 5],
         calls = [FindOneInStock ''Tylenol'', FindAll, FuseSearch ''Tylenol'',
           GenerateContent ''gemini-2.5-flash-lite-preview-06-17'' ''Tylenol'',
           FindOneInStock ''Paracetamol'', FindOneInStock ''Ibuprofen'']\<rparr>)"
proof -
  let ?raw = "''Paracetamol, Ibuprofen, Naproxen, Diclofenac''"
  let ?e = "stub_env (Text ?raw)"
  let ?q = "\<lparr>q_name = Some ''Tylenol'', q_model = None\<rparr>"
  let ?w = "\<lparr>store = [med ''Naproxen'' 7, med ''Ibuprofen'' 5], calls = []\<rparr>"
  let ?top3 = "[''Paracetamol'', ''Ibuprofen'', ''Naproxen'']"
  let ?w1 = "?w\<lparr>calls := calls ?w @ [FindOneInStock ''Tylenol'', FindAll, FuseSearch ''Tylenol'',
       GenerateContent (modelToUse ?q) ''Tylenol'']\<rparr>"
  have 1: "q_name ?q = Some ''Tylenol''" and 2: "''Tylenol'' \<noteq> []" by simp_all
  have 3: "fst (findOne_in_stock ?e ''Tylenol'' ?w) = Inr None"
    by (simp add: findOne_in_stock_def in_stock_match_def med_def regex_eval)
  have 4: "fuse_search ?e (store ?w) ''Tylenol'' = []"
    by (simp add: stub_eval char_eval)
  have 5: "modelToUse ?q \<in> set allowedGeminiModels"
    by (simp add: modelToUse_def default_model_def allowedGeminiModels_def)
  have 6: "gemini ?e (modelToUse ?q) ''Tylenol'' = Text ?raw"
    by (simp add: stub_env_def)
  have 7: "?top3 = take 3 (geminiAlternatives ?raw)"
    by (simp add: geminiAlternatives_def char_eval)
  have 8: "?w1 = ?w1" ..
  have a: "?top3 = [''Paracetamol''] @ ''Ibuprofen'' # [''Naproxen'']" by simp
  have b: "\<forall>a\<in>set [''Paracetamol'']. fst (findOne_in_stock ?e a ?w) = Inr None"
    by (simp add: findOne_in_stock_def in_stock_match_def med_def regex_eval)
  have c: "fst (findOne_in_stock ?e ''Ibuprofen'' ?w) = Inr (Some (med ''Ibuprofen'' 5))"
    by (simp add: findOne_in_stock_def in_stock_match_def med_def regex_eval)
  from substitute_stage_first_in_stock [OF 1 2 3 4 5 6 7 8] a b c
  have "check ?e ?q ?w = (Alternative_available_locally (med ''Ibuprofen'' 5) alternative_disclaimer,
                         ?w1\<lparr>calls := calls ?w1 @ map FindOneInStock ([''Paracetamol''] @ [''Ibuprofen''])\<rparr>)"
    by blast
  with 7 show ?thesis
    by (simp add: modelToUse_def default_model_def)
qed

section \<open>The fuzzy stage\<close>

text \<open>The search draws its results from the snapshot, whatever the stock of a document.\<close>

lemma set_fuse_search:
  "set (fuse_search e docs pat) = {m \<in> set docs. bitap e (3 / 10) pat (tabletName m) \<noteq> None}"
proof -
  have "set (List.map_filter (\<lambda>m. map_option (\<lambda>sc. (m, sc)) (bitap e (3 / 10) pat (tabletName m))) docs) =
      {(m, sc). m \<in> set docs \<and> bitap e (3 / 10) pat (tabletName m) = Some sc}"
    by (induction docs) (auto simp: List.map_filter_simps split: option.splits)
  then show ?thesis
    by (auto simp: fuse_search_def image_iff)
qed

text \<open>
  C2: when the exact stage has missed and the fuzzy search over the snapshot of the whole
  collection finds something, the handler answers \<open>Not_found_but_similar_exist\<close> with
  the names of the first three results: at least one and at most three names, each the
  name of a document of the snapshot as it stands there, with no condition on the stock
  of these documents. In particular, for a collection of one document with stock zero
  whose name is the query, a name the scorer accepts for itself, the answer is
  \<open>Not_found_but_similar_exist\<close> with that name.
\<close>

theorem fuzzy_stage_reports_catalog_names:
  assumes "q_name q = Some nm" and "nm \<noteq> []"
    and "fst (findOne_in_stock e nm w) = Inr None"
    and "topFuzzy = map tabletName (take 3 (fuse_search e (store w) nm))"
  shows "(fuse_search e (store w) nm \<noteq> [] \<longrightarrow>
            check e q w = (Not_found_but_similar_exist topFuzzy,
                           w\<lparr>calls := calls w @ [FindOneInStock nm, FindAll, FuseSearch nm]\<rparr>)
          \<and> topFuzzy \<noteq> [] \<and> length topFuzzy \<le> 3
          \<and> set topFuzzy \<subseteq> set (map tabletName (store w)))
    \<and> (\<forall>m sc. store w = [m] \<and> tabletName m = nm \<and> quantityInStock m = 0
              \<and> bitap e (3 / 10) nm nm = Some sc \<longrightarrow>
          fst (check e q w) = Not_found_but_similar_exist [nm])"
proof -
  have general: "check e q w = (Not_found_but_similar_exist topFuzzy,
                           w\<lparr>calls := calls w @ [FindOneInStock nm, FindAll, FuseSearch nm]\<rparr>)
          \<and> topFuzzy \<noteq> [] \<and> length topFuzzy \<le> 3
          \<and> set topFuzzy \<subseteq> set (map tabletName (store w))"
    if found: "fuse_search e (store w) nm \<noteq> []"
  proof -
    from found have nonempty: "topFuzzy \<noteq> []"
      by (simp add: assms(4))
    have "set (take 3 (fuse_search e (store w) nm)) \<subseteq> set (store w)"
      using set_take_subset[of 3 "fuse_search e (store w) nm"] set_fuse_search[of e "store w" nm]
      by auto
    then have verbatim: "set topFuzzy \<subseteq> set (map tabletName (store w))"
      by (auto simp: assms(4))
    have "check e q w = (Not_found_but_similar_exist topFuzzy,
                           w\<lparr>calls := calls w @ [FindOneInStock nm, FindAll, FuseSearch nm]\<rparr>)"
      using assms(1-3) found unfolding assms(4)
      by (simp add: check_def fuzzy_stage_def find_all_def search_def findOne_in_stock_Inr)
    with nonempty verbatim show ?thesis
      by (simp add: assms(4))
  qed
  have single: "fst (check e q w) = Not_found_but_similar_exist [nm]"
    if "store w = [m]" "tabletName m = nm" "quantityInStock m = 0" "bitap e (3 / 10) nm nm = Some sc"
    for m sc
  proof -
    from that have res: "fuse_search e (store w) nm = [m]"
      by (simp add: fuse_search_def List.map_filter_def)
    with general that(2) show ?thesis
      by (simp add: assms(4))
  qed
  from general single show ?thesis by blast
qed

theorem fuzzy_stage_reports_catalog_names_witness:
  "check (stub_env (Text ''none'')) \<lparr>q_name = Some ''Paracetamol'', q_model = None\<rparr>
      \<lparr>store = [med ''Paracetamol'' 0], calls = []\<rparr>
     = (Not_found_but_similar_exist [''Paracetamol''],
        \<lparr>store = [med ''Paracetamol'' 0], calls = [FindOneInStock ''Paracetamol'', FindAll, FuseSearch ''Paracetamol'']\<rparr>)"
proof -
  let ?e = "stub_env (Text ''none'')"
  let ?q = "\<lparr>q_name = Some ''Paracetamol'', q_model = None\<rparr>"
  let ?w = "\<lparr>store = [med ''Paracetamol'' 0], calls = []\<rparr>"
  have 1: "q_name ?q = Some ''Paracetamol''" and 2: "''Paracetamol'' \<noteq> []" by simp_all
  have 3: "fst (findOne_in_stock ?e ''Paracetamol'' ?w) = Inr None"
    by (simp add: findOne_in_stock_def in_stock_match_def med_def regex_eval)
  have 4: "[''Paracetamol''] = map tabletName (take 3 (fuse_search ?e (store ?w) ''Paracetamol''))"
    by (simp add: stub_eval char_eval)
  have 5: "fuse_search ?e (store ?w) ''Paracetamol'' \<noteq> []"
    by (simp add: stub_eval char_eval)
  from fuzzy_stage_reports_catalog_names [OF 1 2 3 4] 5 show ?thesis
    by simp
qed

section \<open>The exact stage\<close>

text \<open>
  For a name without syntax characters the exact stage does what its comment says: when
  some document in stock has the name up to letter case, the handler answers
  \<open>Available_locally\<close> with the first such document, after the one lookup.
\<close>

lemma exact_stage_hit_plain_name:
  assumes "q_name q = Some nm" and "nm \<noteq> []" and "metachar_free nm"
    and "m \<in> set (store w)" and "same_name_ci (tabletName m) nm" and "0 < quantityInStock m"
  shows "\<exists>r. check e q w = (Available_locally r, w\<lparr>calls := calls w @ [FindOneInStock nm]\<rparr>)
    \<and> find (\<lambda>d. same_name_ci (tabletName d) nm \<and> 0 < quantityInStock d) (store w) = Some r
    \<and> r \<in> set (store w) \<and> same_name_ci (tabletName r) nm \<and> 0 < quantityInStock r"
proof -
  let ?P = "\<lambda>d. same_name_ci (tabletName d) nm \<and> 0 < quantityInStock d"
  from assms(4-6) have "find ?P (store w) \<noteq> None"
    by (auto simp: find_None_iff)
  then obtain r where r: "find ?P (store w) = Some r" by blast
  then have props: "r \<in> set (store w) \<and> ?P r"
    by (auto simp: find_Some_iff)
  have "findOne_in_stock e nm w = (Inr (Some r), w\<lparr>calls := calls w @ [FindOneInStock nm]\<rparr>)"
    using new_RegExp_i_plain[OF assms(3), of e] r
    by (simp add: findOne_in_stock_def in_stock_match_def[abs_def])
  with assms(1,2) r props show ?thesis
    by (simp add: check_def)
qed

lemma fuzzy_stage_not_available_locally: "fst (fuzzy_stage e q nm w) \<noteq> Available_locally m"
  by (auto simp: fuzzy_stage_def find_all_def search_def substitute_stage_def generateContent_def Let_def
      split: gemini_reply.splits prod.splits sum.splits option.splits)

text \<open>
  C1 fails on the handler at a name with parentheses. The collection holds the one
  document \<^verbatim>\<open>Zinc (50mg)\<close>, in stock, and the query is this very name; the pattern
  \<^verbatim>\<open>^Zinc (50mg)$\<close> reads the parentheses as a group and does not accept the name. So the
  exact lookup returns nothing, the handler goes on to the fuzzy stage, and its answer is
  not \<open>Available_locally\<close> with the document.
\<close>

theorem exact_stage_misses_name_with_parentheses:
  "same_name_ci (tabletName (med ''Zinc (50mg)'' 5)) ''Zinc (50mg)''
   \<and> 0 < quantityInStock (med ''Zinc (50mg)'' 5)
   \<and> check e \<lparr>q_name = Some ''Zinc (50mg)'', q_model = mdl\<rparr> \<lparr>store = [med ''Zinc (50mg)'' 5], calls = cs\<rparr>
     = fuzzy_stage e \<lparr>q_name = Some ''Zinc (50mg)'', q_model = mdl\<rparr> ''Zinc (50mg)''
         \<lparr>store = [med ''Zinc (50mg)'' 5], calls = cs @ [FindOneInStock ''Zinc (50mg)'']\<rparr>
   \<and> fst (check e \<lparr>q_name = Some ''Zinc (50mg)'', q_model = mdl\<rparr> \<lparr>store = [med ''Zinc (50mg)'' 5], calls = cs\<rparr>)
     \<noteq> Available_locally (med ''Zinc (50mg)'' 5)"
proof -
  let ?q = "\<lparr>q_name = Some ''Zinc (50mg)'', q_model = mdl\<rparr>"
  let ?w = "\<lparr>store = [med ''Zinc (50mg)'' 5], calls = cs\<rparr>"
  have miss: "findOne_in_stock e ''Zinc (50mg)'' ?w =
      (Inr None, \<lparr>store = [med ''Zinc (50mg)'' 5], calls = cs @ [FindOneInStock ''Zinc (50mg)'']\<rparr>)"
    using pattern_paren[of e]
    by (auto simp: findOne_in_stock_def in_stock_match_def med_def split: option.splits)
  then have "check e ?q ?w = fuzzy_stage e ?q ''Zinc (50mg)''
         \<lparr>store = [med ''Zinc (50mg)'' 5], calls = cs @ [FindOneInStock ''Zinc (50mg)'']\<rparr>"
    by (simp add: check_def)
  then show ?thesis
    using fuzzy_stage_not_available_locally
    by (simp add: same_name_ci_def med_def)
qed

theorem exact_stage_misses_name_with_parentheses_witness:
  "check (stub_env (Text ''none'')) \<lparr>q_name = Some ''Zinc (50mg)'', q_model = None\<rparr>
      \<lparr>store = [med ''Zinc (50mg)'' 5], calls = []\<rparr>
     = (Not_found_but_similar_exist [''Zinc (50mg)''],
        \<lparr>store = [med ''Zinc (50mg)'' 5], calls = [FindOneInStock ''Zinc (50mg)'', FindAll, FuseSearch ''Zinc (50mg)'']\<rparr>)"
  using exact_stage_misses_name_with_parentheses [of "stub_env (Text ''none'')" None "[]"]
  by (simp add: fuzzy_stage_def find_all_def search_def stub_eval char_eval)

section \<open>Adding a medicine\<close>

text \<open>
  C8, as the handler has it: names are compared exactly, letter case included, after the
  name of the request has been trimmed as the schema trims it. A request with a quantity
  and a non-empty name whose trimmed form some document already has is rejected as a
  duplicate and the collection is unchanged. A request whose trimmed name no document
  has, and which passes the validation of the schema, is stored at the end of the
  collection. Whatever the request, a collection whose names are pairwise different
  stays so.
\<close>

theorem add_rejects_exact_duplicate:
  assumes "b_tabletName b = Some nm" and "nm \<noteq> []" and "b_quantityInStock b = Some qty"
  shows "(trim nm \<in> set (map tabletName (store w)) \<longrightarrow>
            post_medicine now b w = (Already_exists nm, w\<lparr>calls := calls w @ [FindOneByName nm]\<rparr>)
          \<and> fst (post_medicine now b w) = Already_exists nm
          \<and> store (snd (post_medicine now b w)) = store w)
    \<and> (distinct (map tabletName (store w)) \<longrightarrow>
          distinct (map tabletName (store (snd (post_medicine now b w)))))
    \<and> (\<forall>newMed. trim nm \<notin> set (map tabletName (store w)) \<and> new_Medicine now nm qty b = Inr newMed \<longrightarrow>
          post_medicine now b w =
            (Created newMed, w\<lparr>store := store w @ [newMed], calls := calls w @ [FindOneByName nm, Save]\<rparr>))"
proof -
  have dup: "post_medicine now b w = (Already_exists nm, w\<lparr>calls := calls w @ [FindOneByName nm]\<rparr>)"
    if "trim nm \<in> set (map tabletName (store w))"
  proof -
    from that have "find (\<lambda>m. tabletName m = trim nm) (store w) \<noteq> None"
      by (auto simp: find_None_iff)
    then obtain existing where "find (\<lambda>m. tabletName m = trim nm) (store w) = Some existing"
      by blast
    with assms show ?thesis
      by (simp add: post_medicine_def findOne_by_name_def)
  qed
  have inv: "distinct (map tabletName (store (snd (post_medicine now b w))))"
    if "distinct (map tabletName (store w))"
    using assms that
    by (auto simp: post_medicine_def findOne_by_name_def save_def
        split: option.splits sum.splits)
  have new: "post_medicine now b w =
            (Created newMed, w\<lparr>store := store w @ [newMed], calls := calls w @ [FindOneByName nm, Save]\<rparr>)"
    if fresh: "trim nm \<notin> set (map tabletName (store w))"
      and valid: "new_Medicine now nm qty b = Inr newMed" for newMed
  proof -
    from fresh have none: "find (\<lambda>m. tabletName m = trim nm) (store w) = None"
      by (force simp: find_None_iff)
    from valid have "tabletName newMed = trim nm"
      by (auto simp: new_Medicine_def split: option.splits if_splits)
    with fresh have "save newMed (w\<lparr>calls := calls w @ [FindOneByName nm]\<rparr>) =
        (Inr (), w\<lparr>store := store w @ [newMed], calls := calls w @ [FindOneByName nm, Save]\<rparr>)"
      by (simp add: save_def)
    with assms none valid show ?thesis
      by (simp add: post_medicine_def findOne_by_name_def)
  qed
  from dup inv new show ?thesis by auto
qed

theorem add_rejects_exact_duplicate_witness:
  "trim '' Aspirin '' = ''Aspirin''
   \<and> post_medicine 7
        \<lparr>b_tabletName = Some '' Aspirin '', b_quantityInStock = Some 3, b_price = Some 10,
         b_dosageFrequency = None, b_usageInstructions = None, b_foodWarnings = None\<rparr>
        \<lparr>store = [med ''Aspirin'' 5], calls = []\<rparr>
     = (Already_exists '' Aspirin '', \<lparr>store = [med ''Aspirin'' 5], calls = [FindOneByName '' Aspirin '']\<rparr>)"
proof -
  let ?b = "\<lparr>b_tabletName = Some '' Aspirin '', b_quantityInStock = Some 3, b_price = Some 10,
         b_dosageFrequency = None, b_usageInstructions = None, b_foodWarnings = None\<rparr>"
  let ?w = "\<lparr>store = [med ''Aspirin'' 5], calls = []\<rparr>"
  have 1: "b_tabletName ?b = Some '' Aspirin ''" and 2: "'' Aspirin '' \<noteq> []"
    and 3: "b_quantityInStock ?b = Some 3" by simp_all
  have 4: "trim '' Aspirin '' = ''Aspirin''"
    by (simp add: trim_def is_space_def)
  then have 5: "trim '' Aspirin '' \<in> set (map tabletName (store ?w))"
    by (simp add: med_def)
  from add_rejects_exact_duplicate [OF 1 2 3, of ?w 7] 4 5 show ?thesis
    by simp
qed

text \<open>
  The claim C8 as stated fails at a name that differs in letter case only: with
  \<^verbatim>\<open>Aspirin\<close> in the collection, the request for \<^verbatim>\<open>aspirin\<close> is accepted and the collection
  gets a second document.
\<close>

theorem add_name_differing_in_case_counterexample:
  "same_name_ci ''aspirin'' ''Aspirin''
   \<and> post_medicine 7
        \<lparr>b_tabletName = Some ''aspirin'', b_quantityInStock = Some 3, b_price = Some 10,
         b_dosageFrequency = None, b_usageInstructions = None, b_foodWarnings = None\<rparr>
        \<lparr>store = [med ''Aspirin'' 5], calls = []\<rparr>
     = (Created ((med ''aspirin'' 3)\<lparr>createdAt := 7\<rparr>),
        \<lparr>store = [med ''Aspirin'' 5, (med ''aspirin'' 3)\<lparr>createdAt := 7\<rparr>],
         calls = [FindOneByName ''aspirin'', Save]\<rparr>)"
  by (simp add: same_name_ci_def post_medicine_def findOne_by_name_def new_Medicine_def save_def
      med_def char_eval)

end
